theory Spec2Isabelle
  imports Complex_Main "HOL-Library.Sublist" "HOL-Library.AList"
begin

section \<open>Strings\<close>

text \<open>
  A Python \<open>str\<close> is modelled as a \<open>string\<close>; a \<open>char\<close> stands for the code point of
  the same number, so the model covers text whose code points are below 256.

  \<open>is_space\<close> is the whitespace of \<open>str.strip()\<close>, \<open>str.isspace()\<close> and of \<open>\s\<close> in a
  \<open>str\<close> pattern: code points 9 to 13, 28 to 32, 133 and 160.
\<close>

definition is_space :: "char \<Rightarrow> bool" where
  "is_space c = (c \<in> set [CHR 0x09, CHR 0x0A, CHR 0x0B, CHR 0x0C, CHR 0x0D,
                            CHR 0x1C, CHR 0x1D, CHR 0x1E, CHR 0x1F, CHR 0x20,
                            CHR 0x85, CHR 0xA0])"

text \<open>\<open>s.strip(chars)\<close>: the characters of the set are removed from both ends.\<close>

definition strip_chars :: "(char \<Rightarrow> bool) \<Rightarrow> string \<Rightarrow> string" where
  "strip_chars p s = rev (dropWhile p (rev (dropWhile p s)))"

text \<open>\<open>s.strip()\<close>\<close>

definition strip :: "string \<Rightarrow> string" where
  "strip s = strip_chars is_space s"

text \<open>\<open>sub in s\<close> on strings\<close>

fun contains :: "string \<Rightarrow> string \<Rightarrow> bool" where
  "contains sub [] = (sub = [])"
| "contains sub (x # xs) = (prefix sub (x # xs) \<or> contains sub xs)"

text \<open>\<open>s.split(d)\<close> with a one-character separator: never empty, \<open>''''.split(d) = ['''']\<close>.\<close>

fun split_on :: "char \<Rightarrow> string \<Rightarrow> string list" where
  "split_on d [] = [[]]"
| "split_on d (x # xs) =
     (if x = d then [] # split_on d xs
      else (case split_on d xs of
              w # ws \<Rightarrow> (x # w) # ws
            | [] \<Rightarrow> [[x]]))"

text \<open>\<open>s.endswith(suffix)\<close>\<close>

definition endswith :: "string \<Rightarrow> string \<Rightarrow> bool" where
  "endswith s suf = suffix suf s"

section \<open>Regular expressions\<close>

text \<open>
  The patterns of the parser use literals, character classes, and greedy \<open>*\<close> and \<open>+\<close> on a
  character class. A pattern is the list of its items, and \<open>c+\<close> is written \<open>One c, Star c\<close>.
  \<open>rmatch\<close> is the backtracking matcher of \<open>re\<close> at one start position: a star first tries one
  more character and gives it back when the rest of the pattern fails. It returns the piece
  of text each item matched and the text left over; a capture group is the concatenation of
  the pieces of its items.
\<close>

datatype rx = Lit string | One "char \<Rightarrow> bool" | Star "char \<Rightarrow> bool"

fun rmatch :: "rx list \<Rightarrow> string \<Rightarrow> (string list \<times> string) option" where
  "rmatch [] s = Some ([], s)"
| "rmatch (Lit l # rs) s =
     (if prefix l s
      then map_option (\<lambda>(ps, r). (l # ps, r)) (rmatch rs (drop (length l) s))
      else None)"
| "rmatch (One c # rs) [] = None"
| "rmatch (One c # rs) (x # xs) =
     (if c x then map_option (\<lambda>(ps, r). ([x] # ps, r)) (rmatch rs xs) else None)"
| "rmatch (Star c # rs) [] = map_option (\<lambda>(ps, r). ([] # ps, r)) (rmatch rs [])"
| "rmatch (Star c # rs) (x # xs) =
     (if c x
      then (case rmatch (Star c # rs) xs of
              Some (p # ps, r) \<Rightarrow> Some ((x # p) # ps, r)
            | _ \<Rightarrow> map_option (\<lambda>(ps, r). ([] # ps, r)) (rmatch rs (x # xs)))
      else map_option (\<lambda>(ps, r). ([] # ps, r)) (rmatch rs (x # xs)))"

text \<open>\<open>pattern.search(s)\<close>: the match at the leftmost start position that has one.\<close>

fun rsearch :: "rx list \<Rightarrow> string \<Rightarrow> string list option" where
  "rsearch rs [] = map_option fst (rmatch rs [])"
| "rsearch rs (x # xs) =
     (case rmatch rs (x # xs) of
        Some (ps, r) \<Rightarrow> Some ps
      | None \<Rightarrow> rsearch rs xs)"

text \<open>The character classes of the patterns.\<close>

definition is_upper :: "char \<Rightarrow> bool" where
  "is_upper c = (65 \<le> (of_char c :: nat) \<and> (of_char c :: nat) \<le> 90)"

definition is_lower :: "char \<Rightarrow> bool" where
  "is_lower c = (97 \<le> (of_char c :: nat) \<and> (of_char c :: nat) \<le> 122)"

definition is_digit :: "char \<Rightarrow> bool" where
  "is_digit c = (48 \<le> (of_char c :: nat) \<and> (of_char c :: nat) \<le> 57)"

text \<open>\<open>[A-Z_]\<close>\<close>

definition cls_upper_us :: "char \<Rightarrow> bool" where
  "cls_upper_us c = (is_upper c \<or> c = CHR ''_'')"

text \<open>\<open>[A-Z0-9_]\<close>\<close>

definition cls_upper_digit_us :: "char \<Rightarrow> bool" where
  "cls_upper_digit_us c = (is_upper c \<or> is_digit c \<or> c = CHR ''_'')"

text \<open>\<open>[a-zA-Z]\<close>\<close>

definition cls_alpha :: "char \<Rightarrow> bool" where
  "cls_alpha c = (is_lower c \<or> is_upper c)"

text \<open>\<open>[a-zA-Z0-9_]\<close>\<close>

definition cls_alnum_us :: "char \<Rightarrow> bool" where
  "cls_alnum_us c = (is_lower c \<or> is_upper c \<or> is_digit c \<or> c = CHR ''_'')"

text \<open>\<open>[^ ,\)]\<close>\<close>

definition cls_default :: "char \<Rightarrow> bool" where
  "cls_default c = (c \<notin> set [CHR '' '', CHR '','', CHR '')''])"

text \<open>\<open>.\<close>: any character but the newline\<close>

definition cls_dot :: "char \<Rightarrow> bool" where
  "cls_dot c = (c \<noteq> CHR 0x0A)"

text \<open>
  The compiled patterns of \<open>PX4ParameterParser.__init__\<close> that the parser uses:
  \<^item> \<open>re_comment_start\<close> is \<^verbatim>\<open>\/\*\*\<close>;
  \<^item> \<open>re_comment_tag\<close> is \<^verbatim>\<open>@([a-zA-Z][a-zA-Z0-9_]*)\s*(.*)\<close>, its groups are items 1 and 2
    together, and item 4;
  \<^item> \<open>re_param_define\<close> is
    \<^verbatim>\<open>PARAM_DEFINE_([A-Z_][A-Z0-9_]*)\s*\(([A-Z_][A-Z0-9_]*)\s*,\s*([^ ,\)]+)\s*\)\s*;\<close>,
    its groups are items 1 and 2, items 5 and 6, and items 10 and 11 (items count from 0).
\<close>

definition re_comment_start :: "rx list" where
  "re_comment_start = [Lit ''/**'']"

definition re_comment_tag :: "rx list" where
  "re_comment_tag = [Lit ''@'', One cls_alpha, Star cls_alnum_us, Star is_space, Star cls_dot]"

definition re_param_define :: "rx list" where
  "re_param_define =
     [Lit ''PARAM_DEFINE_'', One cls_upper_us, Star cls_upper_digit_us, Star is_space,
      Lit ''('', One cls_upper_us, Star cls_upper_digit_us, Star is_space,
      Lit '','', Star is_space, One cls_default, Star cls_default, Star is_space,
      Lit '')'', Star is_space, Lit '';'']"

text \<open>\<open>re_comment_tag.search(line)\<close> with \<open>.groups()\<close>: the tag and its value.\<close>

definition search_comment_tag :: "string \<Rightarrow> (string \<times> string) option" where
  "search_comment_tag line =
     (case rsearch re_comment_tag line of
        Some [a, t1, t2, w, v] \<Rightarrow> Some (t1 @ t2, v)
      | _ \<Rightarrow> None)"

text \<open>\<open>re_param_define.search(line)\<close> with \<open>.groups()\<close>: type, name and default.\<close>

definition search_param_define :: "string \<Rightarrow> (string \<times> string \<times> string) option" where
  "search_param_define line =
     (case rsearch re_param_define line of
        Some [l0, t1, t2, w1, l1, n1, n2, w2, l2, w3, d1, d2, w4, l3, w5, l4] \<Rightarrow>
          Some (t1 @ t2, n1 @ n2, d1 @ d2)
      | _ \<Rightarrow> None)"

section \<open>Exceptions and the numeric builtins\<close>

text \<open>
  The exceptions the parser can meet. \<open>ParseError\<close>, \<open>OSError\<close> and \<open>UnicodeDecodeError\<close>
  come from outside (\<open>ET.parse\<close>, \<open>open\<close>, \<open>read\<close>); the others are raised by the
  conversions below.
\<close>

datatype exn = ValueError | TypeError | KeyError string | ParseError | OSError | UnicodeDecodeError

definition bind_exn :: "exn + 'a \<Rightarrow> ('a \<Rightarrow> exn + 'b) \<Rightarrow> exn + 'b" where
  "bind_exn m f = (case m of Inl e \<Rightarrow> Inl e | Inr x \<Rightarrow> f x)"

text \<open>
  A Python \<open>float\<close>: a binary64 number other than minus zero, as the real number it is;
  minus zero; an infinity (\<open>True\<close> for the negative one); or a NaN. Equality on this type
  is identity of the value, which is not Python's \<open>==\<close>.
\<close>

datatype pyfloat = Finite real | NegZero | Infinity bool | NaN

text \<open>\<open>n.bit_length()\<close> for \<open>n\<close> that is not negative.\<close>

function bit_length :: "int \<Rightarrow> nat" where
  "bit_length n = (if n \<le> 0 then 0 else Suc (bit_length (n div 2)))"
  by pat_completeness auto
termination
  by (relation "measure nat") auto

text \<open>The integer nearest to \<open>p / q\<close>, the even one of two equally near, for \<open>0 \<le> p\<close> and \<open>0 < q\<close>.\<close>

definition round_half_even :: "int \<Rightarrow> int \<Rightarrow> int" where
  "round_half_even p q =
     (let n = p div q; r = p mod q
      in if 2 * r < q then n
         else if q < 2 * r then n + 1
         else if even n then n else n + 1)"

text \<open>The \<open>k\<close> with \<open>2 ^ k \<le> p / q < 2 ^ (k + 1)\<close>, for \<open>0 < p\<close> and \<open>0 < q\<close>.\<close>

definition binary_exponent :: "int \<Rightarrow> int \<Rightarrow> int" where
  "binary_exponent p q =
     (let k = int (bit_length p) - int (bit_length q)
      in if (if 0 \<le> k then q * 2 ^ nat k \<le> p else q \<le> p * 2 ^ nat (- k)) then k else k - 1)"

text \<open>
  The binary64 number nearest to \<open>p / q\<close> (\<open>0 \<le> p\<close>, \<open>0 < q\<close>), with the sign \<open>neg\<close>, as
  the conversion of a decimal text by \<open>float\<close> gives it: 53 significant bits, the least
  exponent \<open>- 1022\<close> with the subnormal numbers below it, halves to the even neighbour, an
  infinity from \<open>2 ^ 1024\<close> on, and a zero that keeps the sign.
\<close>

definition round_binary64 :: "bool \<Rightarrow> int \<Rightarrow> int \<Rightarrow> pyfloat" where
  "round_binary64 neg p q =
     (if p = 0 then (if neg then NegZero else Finite 0)
      else
        (let k = max (binary_exponent p q) (- 1022);
             s = 52 - k;
             n = (if 0 \<le> s then round_half_even (p * 2 ^ nat s) q
                  else round_half_even p (q * 2 ^ nat (- s)));
             a = (if 0 \<le> s then real_of_int n / 2 ^ nat s else real_of_int n * 2 ^ nat (- s))
         in if n = 0 then (if neg then NegZero else Finite 0)
            else if 1023 < k \<or> (k = 1023 \<and> n = 2 ^ 53) then Infinity neg
            else Finite (if neg then - a else a)))"

text \<open>
  The white space \<open>int(s)\<close> and \<open>float(s)\<close> remove from both ends of a string: the ASCII
  white space, and the two other white space characters below \<open>U+0100\<close>. The separators
  \<open>0x1C\<close> to \<open>0x1F\<close>, which \<open>str.strip\<close> removes, are left in place and make the text not
  a number.
\<close>

definition is_number_space :: "char \<Rightarrow> bool" where
  "is_number_space c = (c \<in> set [CHR 0x09, CHR 0x0A, CHR 0x0B, CHR 0x0C, CHR 0x0D, CHR 0x20,
                                   CHR 0x85, CHR 0xA0])"

definition digit_val :: "char \<Rightarrow> int" where
  "digit_val c = of_char c - 48"

text \<open>
  The grammar of \<open>int(s)\<close> and \<open>float(s)\<close>: a digit part is \<open>digit (["_"] digit)*\<close>.
  \<open>digits_loop v n s\<close> reads the rest of a digit part and returns its value, the number of
  digits and the text left over.
\<close>

fun digits_loop :: "int \<Rightarrow> nat \<Rightarrow> string \<Rightarrow> int \<times> nat \<times> string" where
  "digits_loop v n [] = (v, n, [])"
| "digits_loop v n [c] =
     (if is_digit c then (10 * v + digit_val c, Suc n, []) else (v, n, [c]))"
| "digits_loop v n (c # d # cs) =
     (if is_digit c then digits_loop (10 * v + digit_val c) (Suc n) (d # cs)
      else if c = CHR ''_'' \<and> is_digit d then digits_loop (10 * v + digit_val d) (Suc n) cs
      else (v, n, c # d # cs))"

definition digitpart :: "string \<Rightarrow> (int \<times> nat \<times> string) option" where
  "digitpart s =
     (case s of
        [] \<Rightarrow> None
      | c # cs \<Rightarrow> if is_digit c then Some (digits_loop (digit_val c) 1 cs) else None)"

text \<open>An optional sign: whether it is a minus, and the text after it.\<close>

definition take_sign :: "string \<Rightarrow> bool \<times> string" where
  "take_sign s =
     (case s of
        [] \<Rightarrow> (False, [])
      | c # cs \<Rightarrow>
          if c = CHR ''-'' then (True, cs) else if c = CHR ''+'' then (False, cs) else (False, s))"

text \<open>
  \<open>int(s)\<close> for a string: white space around, a sign, one digit part. A text of more
  than 4300 digits is refused, the limit \<open>sys.get_int_max_str_digits()\<close> has when
  nothing sets it, as here.
\<close>

definition py_int :: "string \<Rightarrow> exn + int" where
  "py_int s =
     (case take_sign (strip_chars is_number_space s) of
        (neg, t) \<Rightarrow>
          (case digitpart t of
             Some (v, n, []) \<Rightarrow>
               if 4300 < n then Inl ValueError else Inr (if neg then - v else v)
           | _ \<Rightarrow> Inl ValueError))"

definition to_lower :: "char \<Rightarrow> char" where
  "to_lower c = (if is_upper c then char_of (of_char c + (32::nat)) else c)"

text \<open>The exponent of a float literal: empty, or \<open>e\<close> or \<open>E\<close>, a sign and a digit part.\<close>

definition float_exponent :: "string \<Rightarrow> int option" where
  "float_exponent s =
     (case s of
        [] \<Rightarrow> Some 0
      | c # cs \<Rightarrow>
          if c = CHR ''e'' \<or> c = CHR ''E''
          then (case take_sign cs of
                  (neg, t) \<Rightarrow>
                    (case digitpart t of
                       Some (v, n, []) \<Rightarrow> Some (if neg then - v else v)
                     | _ \<Rightarrow> None))
          else None)"

text \<open>
  The float of mantissa \<open>m\<close> with \<open>nf\<close> digits after the point and exponent \<open>e\<close>: the
  number \<open>m * 10 ^ (e - nf)\<close>, rounded.
\<close>

definition float_value :: "bool \<Rightarrow> int \<Rightarrow> nat \<Rightarrow> int \<Rightarrow> pyfloat" where
  "float_value neg m nf e =
     (if 0 \<le> e then round_binary64 neg (m * 10 ^ nat e) (10 ^ nf)
      else round_binary64 neg m (10 ^ nf * 10 ^ nat (- e)))"

text \<open>
  \<open>number ::= [digitpart] "." digitpart | digitpart ["."]\<close>: the mantissa, the number of
  digits after the point, and the text left over.
\<close>

definition float_number :: "string \<Rightarrow> (int \<times> nat \<times> string) option" where
  "float_number t =
     (case digitpart t of
        Some (vi, ni, r1) \<Rightarrow>
          (case r1 of
             c # r2 \<Rightarrow>
               if c = CHR ''.''
               then (case digitpart r2 of
                       Some (vf, nf, r3) \<Rightarrow> Some (vi * 10 ^ nf + vf, nf, r3)
                     | None \<Rightarrow> Some (vi, 0, r2))
               else Some (vi, 0, r1)
           | [] \<Rightarrow> Some (vi, 0, []))
      | None \<Rightarrow>
          (case t of
             c # r2 \<Rightarrow>
               if c = CHR ''.''
               then (case digitpart r2 of
                       Some (vf, nf, r3) \<Rightarrow> Some (vf, nf, r3)
                     | None \<Rightarrow> None)
               else None
           | [] \<Rightarrow> None))"

text \<open>
  \<open>float(s)\<close> for a string: white space around, a sign, then \<open>inf\<close>, \<open>infinity\<close> or \<open>nan\<close> in
  any case, or a number with an optional exponent.
\<close>

definition py_float :: "string \<Rightarrow> exn + pyfloat" where
  "py_float s =
     (case take_sign (strip_chars is_number_space s) of
        (neg, t) \<Rightarrow>
          if map to_lower t = ''inf'' \<or> map to_lower t = ''infinity'' then Inr (Infinity neg)
          else if map to_lower t = ''nan'' then Inr NaN
          else (case float_number t of
                  Some (m, nf, r) \<Rightarrow>
                    (case float_exponent r of
                       Some e \<Rightarrow> Inr (float_value neg m nf e)
                     | None \<Rightarrow> Inl ValueError)
                | None \<Rightarrow> Inl ValueError))"

text \<open>\<open>float(x)\<close> and \<open>int(x)\<close> where \<open>x\<close> is a string or \<open>None\<close>.\<close>

definition py_float_opt :: "string option \<Rightarrow> exn + pyfloat" where
  "py_float_opt x = (case x of None \<Rightarrow> Inl TypeError | Some s \<Rightarrow> py_float s)"

definition py_int_opt :: "string option \<Rightarrow> exn + int" where
  "py_int_opt x = (case x of None \<Rightarrow> Inl TypeError | Some s \<Rightarrow> py_int s)"

section \<open>The data model\<close>

text \<open>
  The dataclass \<open>ParameterMetadata\<close>. \<open>short_desc\<close> and \<open>long_desc\<close> are optional here,
  because the XML path stores \<open>element.text\<close>, which is \<open>None\<close> for an element without
  text. A dictionary is an association list updated by \<open>AList.update\<close>: a new key goes to
  the end, a known key keeps its place and gets the new value.
\<close>

record ParameterMetadata =
  name :: string
  type :: string
  default :: string
  short_desc :: "string option"
  long_desc :: "string option"
  min_val :: "pyfloat option"
  max_val :: "pyfloat option"
  unit :: "string option"
  decimal :: "int option"
  group :: string
  values_p :: "(string \<times> string option) list"
  volatile :: bool
  category :: string
  source_file :: "string option"
  line_number :: "int option"

text \<open>The log: the level and the message of each call of \<open>self.logger\<close>, in order.\<close>

datatype level = DEBUG | INFO | ERROR

datatype message =
    Starting_parameter_parsing
  | Parsing_injected_parameters_from string
  | Scanning_source_files
  | Parsed_parameter_from_XML string
  | Error_parsing string exn
  | Error_parsing_source_file string exn
  | Parsed_parameter_from_source string
  | Error_processing_parameter string exn
  | Error_parsing_parameter string exn
  | Successfully_saved nat string
  | Error_saving_parameters string exn
  | Output_directory_set_to string

text \<open>The state of a \<open>PX4ParameterParser\<close>.\<close>

record parser =
  repo_path :: string
  output_dir :: string
  parameters :: "(string \<times> ParameterMetadata) list"
  logger :: "(level \<times> message) list"

definition log_msg :: "level \<Rightarrow> message \<Rightarrow> parser \<Rightarrow> parser" where
  "log_msg l m self = self\<lparr>logger := logger self @ [(l, m)]\<rparr>"

text \<open>\<open>self.parameters[k] = p\<close>\<close>

definition set_parameter :: "string \<Rightarrow> ParameterMetadata \<Rightarrow> parser \<Rightarrow> parser" where
  "set_parameter k p self = self\<lparr>parameters := AList.update k p (parameters self)\<rparr>"

section \<open>The XML ingestor\<close>

text \<open>
  An \<open>xml.etree.ElementTree.Element\<close>: its tag, its attributes, its text (\<open>None\<close> when the
  element has none) and its child elements in document order.
\<close>

datatype element =
  Element (tag: string) (attrib: "(string \<times> string) list") (etext: "string option")
    (children: "element list")

text \<open>\<open>elem.find(t)\<close> for a plain tag name: the first child with that tag.\<close>

definition find_elem :: "element \<Rightarrow> string \<Rightarrow> element option" where
  "find_elem e t = List.find (\<lambda>c. tag c = t) (children e)"

text \<open>\<open>elem.findall(t)\<close>: all children with that tag.\<close>

definition findall :: "element \<Rightarrow> string \<Rightarrow> element list" where
  "findall e t = filter (\<lambda>c. tag c = t) (children e)"

text \<open>\<open>elem.attrib.get(k, d)\<close>\<close>

definition attrib_get :: "element \<Rightarrow> string \<Rightarrow> string \<Rightarrow> string" where
  "attrib_get e k d = (case map_of (attrib e) k of None \<Rightarrow> d | Some v \<Rightarrow> v)"

text \<open>
  The truth value of an element, \<open>Element.__bool__\<close>: whether it has child elements.
\<close>

definition element_bool :: "element \<Rightarrow> bool" where
  "element_bool e = (children e \<noteq> [])"

text \<open>
  The test \<open>if x := param_elem.find(t)\<close> of lines 211 to 217: the branch is taken, with
  \<open>x\<close> bound to the child, when \<open>find\<close> returns an element whose truth value is true.
\<close>

definition find_if_true :: "element \<Rightarrow> string \<Rightarrow> element option" where
  "find_if_true e t =
     (case find_elem e t of
        None \<Rightarrow> None
      | Some x \<Rightarrow> if element_bool x then Some x else None)"

text \<open>\<open>elem.find(t).text if elem.find(t) is not None else ''\<close> of lines 204 and 205\<close>

definition child_text :: "element \<Rightarrow> string \<Rightarrow> string option" where
  "child_text e t = (case find_elem e t of None \<Rightarrow> Some [] | Some x \<Rightarrow> etext x)"

text \<open>
  The dictionary comprehension of lines 223 to 226 over the \<open>value\<close> elements:
  \<open>value.attrib['code']\<close> raises \<open>KeyError\<close> when the attribute is missing.
\<close>

fun enum_values ::
  "element list \<Rightarrow> (string \<times> string option) list \<Rightarrow> exn + (string \<times> string option) list" where
  "enum_values [] acc = Inr acc"
| "enum_values (v # vs) acc =
     (case map_of (attrib v) ''code'' of
        None \<Rightarrow> Inl (KeyError ''code'')
      | Some code \<Rightarrow> enum_values vs (AList.update code (etext v) acc))"

text \<open>
  The body of the \<open>try\<close> of \<open>_parse_parameter\<close>: the metadata, \<open>None\<close> for an element
  without a name, or the exception raised.
\<close>

definition parse_parameter_try :: "element \<Rightarrow> string \<Rightarrow> exn + ParameterMetadata option" where
  "parse_parameter_try param_elem grp =
     (case map_of (attrib param_elem) ''name'' of
        None \<Rightarrow> Inr None
      | Some nm \<Rightarrow>
          if nm = [] then Inr None
          else
            (let metadata =
               \<lparr>name = nm,
                type = attrib_get param_elem ''type'' [],
                default = attrib_get param_elem ''default'' [],
                short_desc = child_text param_elem ''short_desc'',
                long_desc = child_text param_elem ''long_desc'',
                min_val = None, max_val = None, unit = None, decimal = None,
                group = grp,
                values_p = [],
                volatile = (map_of (attrib param_elem) ''volatile'' = Some ''true''),
                category = ''Standard'',
                source_file = None, line_number = None\<rparr>
             in
             bind_exn
               (case find_if_true param_elem ''min'' of
                  None \<Rightarrow> Inr metadata
                | Some min_elem \<Rightarrow>
                    bind_exn (py_float_opt (etext min_elem))
                      (\<lambda>v. Inr (metadata\<lparr>min_val := Some v\<rparr>)))
               (\<lambda>metadata.
             bind_exn
               (case find_if_true param_elem ''max'' of
                  None \<Rightarrow> Inr metadata
                | Some max_elem \<Rightarrow>
                    bind_exn (py_float_opt (etext max_elem))
                      (\<lambda>v. Inr (metadata\<lparr>max_val := Some v\<rparr>)))
               (\<lambda>metadata.
             bind_exn
               (case find_if_true param_elem ''unit'' of
                  None \<Rightarrow> Inr metadata
                | Some unit_elem \<Rightarrow> Inr (metadata\<lparr>unit := etext unit_elem\<rparr>))
               (\<lambda>metadata.
             bind_exn
               (case find_if_true param_elem ''decimal'' of
                  None \<Rightarrow> Inr metadata
                | Some decimal_elem \<Rightarrow>
                    bind_exn (py_int_opt (etext decimal_elem))
                      (\<lambda>v. Inr (metadata\<lparr>decimal := Some v\<rparr>)))
               (\<lambda>metadata.
             bind_exn
               (case find_elem param_elem ''values'' of
                  None \<Rightarrow> Inr metadata
                | Some values_elem \<Rightarrow>
                    bind_exn (enum_values (findall values_elem ''value'') [])
                      (\<lambda>vs. Inr (metadata\<lparr>values_p := vs\<rparr>)))
               (\<lambda>metadata. Inr (Some metadata))))))))"

text \<open>
  \<open>_parse_parameter\<close>: an exception of the body is logged and \<open>None\<close> is returned. The
  body raises only after \<open>name\<close> is bound to a non-empty string, so the message names it.
\<close>

definition parse_parameter ::
  "element \<Rightarrow> string \<Rightarrow> parser \<Rightarrow> ParameterMetadata option \<times> parser" where
  "parse_parameter param_elem grp self =
     (case parse_parameter_try param_elem grp of
        Inr r \<Rightarrow> (r, self)
      | Inl e \<Rightarrow>
          (None, log_msg ERROR
             (Error_parsing_parameter (attrib_get param_elem ''name'' ''unknown'') e) self))"

text \<open>The inner loop of \<open>parse_xml_file\<close>, over the \<open>parameter\<close> elements of a group.\<close>

fun ingest_parameters :: "string \<Rightarrow> element list \<Rightarrow> parser \<Rightarrow> parser" where
  "ingest_parameters group_name [] self = self"
| "ingest_parameters group_name (param # params) self =
     (case parse_parameter param group_name self of
        (Some metadata, self') \<Rightarrow>
          ingest_parameters group_name params
            (log_msg DEBUG (Parsed_parameter_from_XML (name metadata))
               (set_parameter (name metadata) metadata self'))
      | (None, self') \<Rightarrow> ingest_parameters group_name params self')"

text \<open>The outer loop, over the \<open>group\<close> elements of the root.\<close>

fun ingest_groups :: "element list \<Rightarrow> parser \<Rightarrow> parser" where
  "ingest_groups [] self = self"
| "ingest_groups (grp # grps) self =
     ingest_groups grps
       (ingest_parameters (attrib_get grp ''name'' ''Uncategorized'')
          (findall grp ''parameter'') self)"

text \<open>
  The body of the \<open>try\<close> of \<open>parse_xml_file\<close>. \<open>doc\<close> is what \<open>ET.parse(xml_path)\<close> and
  \<open>getroot()\<close> give for the file: the root element, or the exception raised on a file that
  cannot be read or is not well-formed. The result is the state the body leaves behind
  (the parser is mutated in place) and the exception it raised, if any.
\<close>

definition parse_xml_file_try :: "exn + element \<Rightarrow> parser \<Rightarrow> parser \<times> exn option" where
  "parse_xml_file_try doc self =
     (case doc of
        Inl e \<Rightarrow> (self, Some e)
      | Inr root_elem \<Rightarrow> (ingest_groups (findall root_elem ''group'') self, None))"

text \<open>\<open>parse_xml_file\<close>: an exception of the body is logged and not raised again.\<close>

definition parse_xml_file :: "string \<Rightarrow> exn + element \<Rightarrow> parser \<Rightarrow> parser" where
  "parse_xml_file xml_path doc self =
     (case parse_xml_file_try doc self of
        (self', None) \<Rightarrow> self'
      | (self', Some e) \<Rightarrow> log_msg ERROR (Error_parsing xml_path e) self')"

section \<open>The comment and macro extractor\<close>

text \<open>
  The loop of \<open>_process_parameter_definition\<close> over the comment lines, on the variables
  \<open>short_desc\<close>, \<open>long_desc\<close> and \<open>metadata\<close> (the dictionary of the tags).
\<close>

definition is_decoration :: "char \<Rightarrow> bool" where
  "is_decoration c = (c \<in> set ''/* '')"

fun parse_comment ::
  "string list \<Rightarrow> string \<times> string \<times> (string \<rightharpoonup> string) \<Rightarrow>
   string \<times> string \<times> (string \<rightharpoonup> string)" where
  "parse_comment [] acc = acc"
| "parse_comment (raw # comment_lines) (short_desc', long_desc', metadata) =
     (let line = strip_chars is_decoration raw in
      parse_comment comment_lines
        (case search_comment_tag line of
           Some (tg, v) \<Rightarrow> (short_desc', long_desc', metadata(tg \<mapsto> v))
         | None \<Rightarrow>
             if short_desc' = [] then (line, long_desc', metadata)
             else (short_desc', long_desc' @ line @ '' '', metadata)))"

text \<open>
  The statements of lines 174 to 185, one each. \<open>float\<close> and \<open>int\<close> may raise.
\<close>

definition add_min :: "(string \<rightharpoonup> string) \<Rightarrow> ParameterMetadata \<Rightarrow> exn + ParameterMetadata" where
  "add_min metadata param =
     (case metadata ''min'' of
        None \<Rightarrow> Inr param
      | Some v \<Rightarrow> bind_exn (py_float v) (\<lambda>x. Inr (param\<lparr>min_val := Some x\<rparr>)))"

definition add_max :: "(string \<rightharpoonup> string) \<Rightarrow> ParameterMetadata \<Rightarrow> exn + ParameterMetadata" where
  "add_max metadata param =
     (case metadata ''max'' of
        None \<Rightarrow> Inr param
      | Some v \<Rightarrow> bind_exn (py_float v) (\<lambda>x. Inr (param\<lparr>max_val := Some x\<rparr>)))"

definition add_unit :: "(string \<rightharpoonup> string) \<Rightarrow> ParameterMetadata \<Rightarrow> exn + ParameterMetadata" where
  "add_unit metadata param =
     (case metadata ''unit'' of
        None \<Rightarrow> Inr param
      | Some v \<Rightarrow> Inr (param\<lparr>unit := Some v\<rparr>))"

definition add_decimal :: "(string \<rightharpoonup> string) \<Rightarrow> ParameterMetadata \<Rightarrow> exn + ParameterMetadata" where
  "add_decimal metadata param =
     (case metadata ''decimal'' of
        None \<Rightarrow> Inr param
      | Some v \<Rightarrow> bind_exn (py_int v) (\<lambda>x. Inr (param\<lparr>decimal := Some x\<rparr>)))"

definition add_volatile :: "(string \<rightharpoonup> string) \<Rightarrow> ParameterMetadata \<Rightarrow> exn + ParameterMetadata" where
  "add_volatile metadata param =
     (case metadata ''volatile'' of
        None \<Rightarrow> Inr param
      | Some v \<Rightarrow> Inr (param\<lparr>volatile := True\<rparr>))"

definition add_category :: "(string \<rightharpoonup> string) \<Rightarrow> ParameterMetadata \<Rightarrow> exn + ParameterMetadata" where
  "add_category metadata param =
     (case metadata ''category'' of
        None \<Rightarrow> Inr param
      | Some v \<Rightarrow> Inr (param\<lparr>category := v\<rparr>))"

text \<open>
  The body of the \<open>try\<close> of \<open>_process_parameter_definition\<close> up to the assignment to
  \<open>self.parameters\<close>: the parameter built, or the exception of \<open>float\<close> or \<open>int\<close>.
\<close>

definition process_parameter_definition_try ::
  "string \<Rightarrow> string \<Rightarrow> string \<Rightarrow> string list \<Rightarrow> string \<Rightarrow> int \<Rightarrow> exn + ParameterMetadata" where
  "process_parameter_definition_try param_type param_name param_default comment_lines
       src_file line_no =
     (case parse_comment comment_lines ([], [], Map.empty) of
        (short_desc', long_desc', metadata) \<Rightarrow>
          bind_exn
            (Inr \<lparr>name = param_name,
                  type = param_type,
                  default = param_default,
                  short_desc = Some (strip short_desc'),
                  long_desc = Some (strip long_desc'),
                  min_val = None, max_val = None, unit = None, decimal = None,
                  group = (case metadata ''group'' of None \<Rightarrow> ''Uncategorized'' | Some g \<Rightarrow> g),
                  values_p = [],
                  volatile = False,
                  category = ''Standard'',
                  source_file = Some src_file,
                  line_number = Some line_no\<rparr>)
            (\<lambda>param. bind_exn (add_min metadata param)
            (\<lambda>param. bind_exn (add_max metadata param)
            (\<lambda>param. bind_exn (add_unit metadata param)
            (\<lambda>param. bind_exn (add_decimal metadata param)
            (\<lambda>param. bind_exn (add_volatile metadata param)
            (\<lambda>param. add_category metadata param)))))))"

text \<open>
  \<open>_process_parameter_definition\<close>: the parameter is stored under its name; an exception
  is logged with the name and nothing is stored.
\<close>

definition process_parameter_definition ::
  "string \<Rightarrow> string \<Rightarrow> string \<Rightarrow> string list \<Rightarrow> string \<Rightarrow> int \<Rightarrow> parser \<Rightarrow> parser" where
  "process_parameter_definition param_type param_name param_default comment_lines
       src_file line_no self =
     (case process_parameter_definition_try param_type param_name param_default
             comment_lines src_file line_no of
        Inr param \<Rightarrow>
          log_msg DEBUG (Parsed_parameter_from_source param_name)
            (set_parameter param_name param self)
      | Inl e \<Rightarrow> log_msg ERROR (Error_processing_parameter param_name e) self)"

text \<open>
  One turn of the loop of \<open>parse_source_file\<close>, on the variables \<open>in_comment\<close> and
  \<open>current_comment\<close> and the parser. \<open>src_file\<close> is the path of the file relative to the
  repository root, \<open>line_no\<close> the number of the line, already incremented.
\<close>

definition scan_line ::
  "string \<Rightarrow> int \<Rightarrow> string \<Rightarrow> bool \<times> string list \<times> parser \<Rightarrow> bool \<times> string list \<times> parser" where
  "scan_line src_file line_no raw st =
     (case st of
        (in_comment, current_comment, self) \<Rightarrow>
          (let line = strip raw in
           if rsearch re_comment_start line \<noteq> None then (True, [], self)
           else if in_comment then
             (if contains ''*/'' line then (False, current_comment @ [line], self)
              else (in_comment, current_comment @ [line], self))
           else
             (case search_param_define line of
                Some (param_type, param_name, param_default) \<Rightarrow>
                  (in_comment, [],
                   process_parameter_definition param_type param_name param_default
                     current_comment src_file line_no self)
              | None \<Rightarrow> (in_comment, current_comment, self))))"

text \<open>The loop over the lines; \<open>line_no\<close> is the number of the line before the first.\<close>

fun scan_lines ::
  "string \<Rightarrow> int \<Rightarrow> string list \<Rightarrow> bool \<times> string list \<times> parser \<Rightarrow>
   bool \<times> string list \<times> parser" where
  "scan_lines src_file line_no [] st = st"
| "scan_lines src_file line_no (raw # raws) st =
     scan_lines src_file (line_no + 1) raws (scan_line src_file (line_no + 1) raw st)"

text \<open>
  A file of the tree: its path relative to the repository root, and what \<open>open\<close> and
  \<open>f.read()\<close> give for it, the text or the exception raised.
\<close>

type_synonym src_file = "string \<times> (exn + string)"

text \<open>\<open>str(src_path)\<close> for a path the walk of \<open>repo_path\<close> yields.\<close>

definition path_str :: "parser \<Rightarrow> string \<Rightarrow> string" where
  "path_str self rel = repo_path self @ ''/'' @ rel"

text \<open>\<open>parse_source_file\<close>: an exception of reading the file is logged and not raised again.\<close>

definition parse_source_file :: "src_file \<Rightarrow> parser \<Rightarrow> parser" where
  "parse_source_file f self =
     (case snd f of
        Inl e \<Rightarrow> log_msg ERROR (Error_parsing_source_file (path_str self (fst f)) e) self
      | Inr content \<Rightarrow>
          snd (snd (scan_lines (fst f) 0 (split_on (CHR 0x0A) content) (False, [], self))))"

section \<open>The serializer\<close>

text \<open>The values \<open>json.dump\<close> is given and \<open>json.load\<close> returns.\<close>

datatype json =
  JNull | JBool bool | JInt int | JFloat pyfloat | JString string | JObject "(string \<times> json) list"

definition json_opt :: "('a \<Rightarrow> json) \<Rightarrow> 'a option \<Rightarrow> json" where
  "json_opt f x = (case x of None \<Rightarrow> JNull | Some v \<Rightarrow> f v)"

text \<open>The inner dictionary of \<open>params_dict\<close>, lines 239 to 255.\<close>

definition metadata_dict :: "ParameterMetadata \<Rightarrow> json" where
  "metadata_dict p =
     JObject
       [(''name'', JString (name p)),
        (''type'', JString (type p)),
        (''default'', JString (default p)),
        (''short_desc'', json_opt JString (short_desc p)),
        (''long_desc'', json_opt JString (long_desc p)),
        (''min_val'', json_opt JFloat (min_val p)),
        (''max_val'', json_opt JFloat (max_val p)),
        (''unit'', json_opt JString (unit p)),
        (''decimal'', json_opt JInt (decimal p)),
        (''group'', JString (group p)),
        (''values'', JObject (map (\<lambda>kv. (fst kv, json_opt JString (snd kv))) (values_p p))),
        (''volatile'', JBool (volatile p)),
        (''category'', JString (category p)),
        (''source_file'', json_opt JString (source_file p)),
        (''line_number'', json_opt JInt (line_number p))]"

definition params_dict :: "(string \<times> ParameterMetadata) list \<Rightarrow> json" where
  "params_dict ps = JObject (map (\<lambda>kv. (fst kv, metadata_dict (snd kv))) ps)"

text \<open>
  \<open>save_parameters\<close>. \<open>wr\<close> is the outcome of opening the output file and writing the
  document: \<open>None\<close>, or the exception raised. The result is the document written, if the
  writing succeeded, and the parser.
\<close>

definition save_parameters :: "exn option \<Rightarrow> parser \<Rightarrow> json option \<times> parser" where
  "save_parameters wr self =
     (let output_file = output_dir self @ ''/px4_parameters.json'';
          doc = params_dict (parameters self)
      in case wr of
           None \<Rightarrow>
             (Some doc,
              log_msg INFO (Successfully_saved (length (parameters self)) output_file) self)
         | Some e \<Rightarrow> (None, log_msg ERROR (Error_saving_parameters output_file e) self))"

section \<open>The pipeline\<close>

text \<open>\<open>self.repo_path.rglob("*" + ext)\<close>: the files of the tree whose name ends with \<open>ext\<close>.\<close>

definition rglob :: "src_file list \<Rightarrow> string \<Rightarrow> src_file list" where
  "rglob tree ext = filter (\<lambda>f. endswith (fst f) ext) tree"

text \<open>The inner loop of \<open>parse_all\<close>, over the files of one extension.\<close>

fun scan_files :: "src_file list \<Rightarrow> parser \<Rightarrow> parser" where
  "scan_files [] self = self"
| "scan_files (f # fs) self =
     scan_files fs
       (if \<not> contains ''build'' (path_str self (fst f)) then parse_source_file f self
        else self)"

text \<open>The outer loop, over the extensions.\<close>

fun scan_exts :: "string list \<Rightarrow> src_file list \<Rightarrow> parser \<Rightarrow> parser" where
  "scan_exts [] tree self = self"
| "scan_exts (ext # exts) tree self = scan_exts exts tree (scan_files (rglob tree ext) self)"

text \<open>
  \<open>parse_all\<close>. \<open>injected\<close> is \<open>None\<close> when the injected-parameters file does not exist,
  and otherwise what parsing it gives; \<open>tree\<close> lists the files under the repository root
  in the order the walk yields them.
\<close>

definition parse_all ::
  "(exn + element) option \<Rightarrow> src_file list \<Rightarrow> exn option \<Rightarrow> parser \<Rightarrow> json option \<times> parser" where
  "parse_all injected tree wr self =
     (let injected_path = path_str self ''src/lib/parameters/parameters_injected.xml'';
          self1 = log_msg INFO Starting_parameter_parsing self;
          self2 =
            (case injected of
               None \<Rightarrow> self1
             | Some doc \<Rightarrow>
                 parse_xml_file injected_path doc
                   (log_msg INFO (Parsing_injected_parameters_from injected_path) self1));
          self3 = log_msg INFO Scanning_source_files self2;
          self4 = scan_exts [''.c'', ''.cpp'', ''.h'', ''.hpp''] tree self3
      in save_parameters wr self4)"

text \<open>
  The parser \<open>__init__\<close> leaves behind: no parameters, and the message of
  \<open>ensure_output_dir\<close> in the log.
\<close>

definition init :: "string \<Rightarrow> string \<Rightarrow> parser" where
  "init repo out =
     \<lparr>repo_path = repo, output_dir = out, parameters = [],
      logger = [(INFO, Output_directory_set_to out)]\<rparr>"

section \<open>Notions used in the statements\<close>

text \<open>
  The dictionary \<open>metadata\<close> of the tags that \<open>_process_parameter_definition\<close> has built
  when its loop over the comment lines ends: the last occurrence of a tag wins.
\<close>

definition comment_tags :: "string list \<Rightarrow> (string \<rightharpoonup> string)" where
  "comment_tags comment_lines = snd (snd (parse_comment comment_lines ([], [], Map.empty)))"

text \<open>
  The dictionary gives \<open>min\<close> or \<open>max\<close> a text that \<open>float\<close> rejects, or \<open>decimal\<close> a text
  that \<open>int\<close> rejects.
\<close>

definition bad_numeric_tag :: "(string \<rightharpoonup> string) \<Rightarrow> bool" where
  "bad_numeric_tag metadata =
     ((case metadata ''min'' of None \<Rightarrow> False | Some v \<Rightarrow> isl (py_float v)) \<or>
      (case metadata ''max'' of None \<Rightarrow> False | Some v \<Rightarrow> isl (py_float v)) \<or>
      (case metadata ''decimal'' of None \<Rightarrow> False | Some v \<Rightarrow> isl (py_int v)))"

text \<open>
  The log says that the extractor stored an entry for the name: the message of line 188,
  which is logged right after the assignment to \<open>self.parameters\<close> and nowhere else.
\<close>

definition stored_from_source :: "parser \<Rightarrow> string \<Rightarrow> bool" where
  "stored_from_source self nm = ((DEBUG, Parsed_parameter_from_source nm) \<in> set (logger self))"

text \<open>
  The mapping has one entry per name, and it holds a source-derived entry (one that
  carries a source file) under every name the extractor has stored an entry for.
\<close>

definition source_entries_kept :: "parser \<Rightarrow> bool" where
  "source_entries_kept self =
     (distinct (map fst (parameters self)) \<and>
      (\<forall>nm. stored_from_source self nm \<longrightarrow>
         (\<exists>p. map_of (parameters self) nm = Some p \<and> name p = nm \<and> source_file p \<noteq> None)))"

text \<open>The mapping has one entry per name, and the extractor has stored nothing yet.\<close>

definition before_source_scan :: "parser \<Rightarrow> bool" where
  "before_source_scan self =
     (distinct (map fst (parameters self)) \<and> (\<forall>nm. \<not> stored_from_source self nm))"

text \<open>
  The reader of the round-trip property. It is not code of the repository, which only
  writes the document: it reads a value as \<open>json.load\<close> returns it back into the fields of
  \<open>ParameterMetadata\<close>, field by field under the keys of the document, with \<open>null\<close> read
  as \<open>None\<close>, and fails on a value of another shape.
\<close>

definition json_string :: "json \<Rightarrow> string option" where
  "json_string j = (case j of JString s \<Rightarrow> Some s | _ \<Rightarrow> None)"

definition json_bool :: "json \<Rightarrow> bool option" where
  "json_bool j = (case j of JBool b \<Rightarrow> Some b | _ \<Rightarrow> None)"

definition json_int :: "json \<Rightarrow> int option" where
  "json_int j = (case j of JInt i \<Rightarrow> Some i | _ \<Rightarrow> None)"

definition json_float :: "json \<Rightarrow> pyfloat option" where
  "json_float j = (case j of JFloat x \<Rightarrow> Some x | _ \<Rightarrow> None)"

definition json_nullable :: "(json \<Rightarrow> 'a option) \<Rightarrow> json \<Rightarrow> 'a option option" where
  "json_nullable f j = (case j of JNull \<Rightarrow> Some None | _ \<Rightarrow> map_option Some (f j))"

definition json_field :: "(string \<times> json) list \<Rightarrow> string \<Rightarrow> (json \<Rightarrow> 'a option) \<Rightarrow> 'a option" where
  "json_field kvs k f = Option.bind (map_of kvs k) f"

definition json_values :: "json \<Rightarrow> (string \<times> string option) list option" where
  "json_values j =
     (case j of
        JObject kvs \<Rightarrow>
          those (map (\<lambda>kv. map_option (Pair (fst kv)) (json_nullable json_string (snd kv))) kvs)
      | _ \<Rightarrow> None)"

definition read_metadata :: "json \<Rightarrow> ParameterMetadata option" where
  "read_metadata j =
     (case j of
        JObject kvs \<Rightarrow>
          Option.bind (json_field kvs ''name'' json_string) (\<lambda>v1.
          Option.bind (json_field kvs ''type'' json_string) (\<lambda>v2.
          Option.bind (json_field kvs ''default'' json_string) (\<lambda>v3.
          Option.bind (json_field kvs ''short_desc'' (json_nullable json_string)) (\<lambda>v4.
          Option.bind (json_field kvs ''long_desc'' (json_nullable json_string)) (\<lambda>v5.
          Option.bind (json_field kvs ''min_val'' (json_nullable json_float)) (\<lambda>v6.
          Option.bind (json_field kvs ''max_val'' (json_nullable json_float)) (\<lambda>v7.
          Option.bind (json_field kvs ''unit'' (json_nullable json_string)) (\<lambda>v8.
          Option.bind (json_field kvs ''decimal'' (json_nullable json_int)) (\<lambda>v9.
          Option.bind (json_field kvs ''group'' json_string) (\<lambda>v10.
          Option.bind (json_field kvs ''values'' json_values) (\<lambda>v11.
          Option.bind (json_field kvs ''volatile'' json_bool) (\<lambda>v12.
          Option.bind (json_field kvs ''category'' json_string) (\<lambda>v13.
          Option.bind (json_field kvs ''source_file'' (json_nullable json_string)) (\<lambda>v14.
          Option.bind (json_field kvs ''line_number'' (json_nullable json_int)) (\<lambda>v15.
            Some \<lparr>name = v1, type = v2, default = v3, short_desc = v4, long_desc = v5,
                  min_val = v6, max_val = v7, unit = v8, decimal = v9, group = v10,
                  values_p = v11, volatile = v12, category = v13, source_file = v14,
                  line_number = v15\<rparr>)))))))))))))))
      | _ \<Rightarrow> None)"

text \<open>The value under a key of a JSON object.\<close>

definition json_get :: "json \<Rightarrow> string \<Rightarrow> json option" where
  "json_get j k = (case j of JObject kvs \<Rightarrow> map_of kvs k | _ \<Rightarrow> None)"

definition read_parameters :: "json \<Rightarrow> (string \<times> ParameterMetadata) list option" where
  "read_parameters j =
     (case j of
        JObject kvs \<Rightarrow> those (map (\<lambda>kv. map_option (Pair (fst kv)) (read_metadata (snd kv))) kvs)
      | _ \<Rightarrow> None)"

text \<open>
  What one item of a pattern may consume: a literal its own text, a class one character
  of it, a starred class any number of its characters.
\<close>

fun piece_ok :: "rx \<Rightarrow> string \<Rightarrow> bool" where
  "piece_ok (Lit l) p = (p = l)"
| "piece_ok (One c) p = (case p of [x] \<Rightarrow> c x | _ \<Rightarrow> False)"
| "piece_ok (Star c) p = list_all c p"

text \<open>The texts of \<^verbatim>\<open>[A-Z_][A-Z0-9_]*\<close>, the type and the name of the macro.\<close>

definition is_identifier :: "string \<Rightarrow> bool" where
  "is_identifier s =
     (case s of [] \<Rightarrow> False | x # xs \<Rightarrow> cls_upper_us x \<and> list_all cls_upper_digit_us xs)"

text \<open>
  Python's \<open>==\<close> on two floats: a NaN is equal to nothing, not even to a NaN, and the two
  zeros are equal.
\<close>

fun float_eq :: "pyfloat \<Rightarrow> pyfloat \<Rightarrow> bool" where
  "float_eq NaN y = False"
| "float_eq x NaN = False"
| "float_eq NegZero (Finite r) = (r = 0)"
| "float_eq (Finite r) NegZero = (r = 0)"
| "float_eq x y = (x = y)"

text \<open>
  \<open>==\<close> on two dictionaries, as association lists, whose values \<open>veq\<close> compares: the same
  keys, and equal values under every key.
\<close>

definition dict_eq :: "('v \<Rightarrow> 'v \<Rightarrow> bool) \<Rightarrow> (string \<times> 'v) list \<Rightarrow> (string \<times> 'v) list \<Rightarrow> bool" where
  "dict_eq veq xs ys =
     (set (map fst xs) = set (map fst ys) \<and>
      (\<forall>k \<in> set (map fst xs). rel_option veq (map_of xs k) (map_of ys k)))"

text \<open>
  Two entries are equal in all fields, each field compared as Python compares its values:
  the bounds by \<open>float_eq\<close>, the enum values as dictionaries.
\<close>

definition metadata_eq :: "ParameterMetadata \<Rightarrow> ParameterMetadata \<Rightarrow> bool" where
  "metadata_eq p q =
     (name p = name q \<and> type p = type q \<and> default p = default q \<and>
      short_desc p = short_desc q \<and> long_desc p = long_desc q \<and>
      rel_option float_eq (min_val p) (min_val q) \<and>
      rel_option float_eq (max_val p) (max_val q) \<and>
      unit p = unit q \<and> decimal p = decimal q \<and> group p = group q \<and>
      dict_eq (=) (values_p p) (values_p q) \<and>
      volatile p = volatile q \<and> category p = category q \<and>
      source_file p = source_file q \<and> line_number p = line_number q)"

text \<open>One of the bounds of the entry is a NaN.\<close>

definition nan_bound :: "ParameterMetadata \<Rightarrow> bool" where
  "nan_bound p = (min_val p = Some NaN \<or> max_val p = Some NaN)"

text \<open>Every entry of the mapping is under its own name and carries a source file.\<close>

definition source_derived :: "parser \<Rightarrow> bool" where
  "source_derived self =
     (\<forall>nm p. map_of (parameters self) nm = Some p \<longrightarrow> name p = nm \<and> source_file p \<noteq> None)"

section \<open>Properties of the strings and of the scanner\<close>

subsection \<open>The conversions\<close>

text \<open>
  \<open>float\<close> and \<open>int\<close> on some texts: a separator \<open>0x1C\<close> to \<open>0x1F\<close> at an end is not
  removed and the text is refused, a no-break space is removed; the value is rounded to
  binary64, and minus zero keeps its sign. A comment
  line that gives \<open>@min\<close> a number followed by a separator makes a bad numeric tag.
\<close>

lemma conversion_examples:
  "py_float (''1'' @ [CHR 0x1C]) = Inl ValueError \<and>
   py_float (''1'' @ [CHR 0xA0]) = Inr (Finite 1) \<and>
   py_int (''2'' @ [CHR 0x1F]) = Inl ValueError \<and>
   py_int ('' 2'' @ [CHR 0x09]) = Inr 2 \<and>
   py_float ''0.1'' = Inr (Finite (3602879701896397 / 36028797018963968)) \<and>
   py_float ''9007199254740993'' = Inr (Finite 9007199254740992) \<and>
   py_float ''-0.0'' = Inr NegZero \<and>
   py_float ''-nan'' = Inr NaN \<and>
   bad_numeric_tag (comment_tags [''* @min 1'' @ [CHR 0x1C] @ '' */''])"
  by (intro conjI; code_simp)

lemma contains_Nil [simp]: "contains [] s"
  by (cases s) simp_all

lemma contains_Cons_tail: "contains sub xs \<Longrightarrow> contains sub (x # xs)"
  by simp

lemma split_on_nonempty [simp]: "split_on d s \<noteq> []"
  by (induction s) (simp_all split: list.splits)

lemma split_on_append: "split_on d (a @ d # b) = split_on d a @ split_on d b"
proof (induction a)
  case Nil
  then show ?case by simp
next
  case (Cons x a)
  obtain w ws where r: "split_on d a = w # ws"
    by (cases "split_on d a") simp_all
  with Cons show ?case by simp
qed

lemma segment_contains: "seg \<in> set (split_on d s) \<Longrightarrow> contains seg s"
proof (induction s arbitrary: seg)
  case Nil
  then show ?case by simp
next
  case (Cons x xs)
  obtain w ws where r: "split_on d xs = w # ws"
    by (cases "split_on d xs") simp_all
  show ?case
  proof (cases "x = d")
    case True
    with Cons show ?thesis by auto
  next
    case False
    with Cons.prems r have "seg = x # w \<or> seg \<in> set ws" by simp
    then show ?thesis
    proof
      assume s: "seg = x # w"
      have "contains w xs" using Cons.IH [of w] r by simp
      have "prefix w xs" using r
      proof (induction xs arbitrary: w ws)
        case Nil
        then show ?case by simp
      next
        case (Cons y ys)
        then show ?case by (auto split: if_splits list.splits)
      qed
      with s show ?thesis by simp
    next
      assume "seg \<in> set ws"
      with r have "seg \<in> set (split_on d xs)" by simp
      with Cons.IH show ?thesis by simp
    qed
  qed
qed

lemma contains_iff: "contains sub s \<longleftrightarrow> (\<exists>p q. s = p @ sub @ q)"
proof (induction s)
  case Nil
  then show ?case by auto
next
  case (Cons x xs)
  show ?case
  proof
    assume "contains sub (x # xs)"
    then consider "prefix sub (x # xs)" | "contains sub xs" by auto
    then show "\<exists>p q. x # xs = p @ sub @ q"
    proof cases
      case 1
      then obtain q where "x # xs = sub @ q" by (auto simp: prefix_def)
      then have "x # xs = [] @ sub @ q" by simp
      then show ?thesis by blast
    next
      case 2
      with Cons.IH obtain p q where "xs = p @ sub @ q" by blast
      then have "x # xs = (x # p) @ sub @ q" by simp
      then show ?thesis by blast
    qed
  next
    assume "\<exists>p q. x # xs = p @ sub @ q"
    then obtain p q where pq: "x # xs = p @ sub @ q" by blast
    show "contains sub (x # xs)"
    proof (cases p)
      case Nil
      with pq have "prefix sub (x # xs)" by (simp add: prefix_def)
      then show ?thesis by simp
    next
      case (Cons y ys)
      with pq have "xs = ys @ sub @ q" by simp
      with Cons.IH have "contains sub xs" by blast
      then show ?thesis by simp
    qed
  qed
qed

lemma rsearch_Lit: "rsearch [Lit l] s \<noteq> None \<longleftrightarrow> contains l s"
  by (induction s) (auto split: option.splits)

lemma comment_start_iff: "rsearch re_comment_start line \<noteq> None \<longleftrightarrow> contains ''/**'' line"
  unfolding re_comment_start_def by (rule rsearch_Lit)

lemma comment_start_None: "rsearch re_comment_start line = None \<longleftrightarrow> \<not> contains ''/**'' line"
  using comment_start_iff [of line] by blast

lemma comment_start_Some:
  "(\<exists>y. rsearch re_comment_start line = Some y) \<longleftrightarrow> contains ''/**'' line"
  using comment_start_iff [of line] by auto

subsection \<open>What the operations leave alone\<close>

lemma log_msg_simps [simp]:
  "repo_path (log_msg l m self) = repo_path self"
  "output_dir (log_msg l m self) = output_dir self"
  "parameters (log_msg l m self) = parameters self"
  "logger (log_msg l m self) = logger self @ [(l, m)]"
  by (simp_all add: log_msg_def)

lemma set_parameter_simps [simp]:
  "repo_path (set_parameter k p self) = repo_path self"
  "output_dir (set_parameter k p self) = output_dir self"
  "parameters (set_parameter k p self) = AList.update k p (parameters self)"
  "logger (set_parameter k p self) = logger self"
  by (simp_all add: set_parameter_def)

lemma repo_path_process [simp]:
  "repo_path (process_parameter_definition t nm d cc src n self) = repo_path self"
  by (simp add: process_parameter_definition_def split: sum.splits)

lemma repo_path_scan_line [simp]:
  "repo_path (snd (snd (scan_line src n raw st))) = repo_path (snd (snd st))"
  by (cases st) (simp add: scan_line_def Let_def split: option.splits prod.splits)

lemma repo_path_scan_lines [simp]:
  "repo_path (snd (snd (scan_lines src n raws st))) = repo_path (snd (snd st))"
  by (induction raws arbitrary: n st) simp_all

lemma repo_path_parse_source_file [simp]:
  "repo_path (parse_source_file f self) = repo_path self"
  by (simp add: parse_source_file_def split: sum.splits)

lemma path_str_parse_source_file [simp]:
  "path_str (parse_source_file f self) rel = path_str self rel"
  by (simp add: path_str_def)

subsection \<open>The scanner\<close>

lemma scan_line_in_comment:
  "scan_line src n raw (True, cc, self) =
     (if contains ''/**'' (strip raw) then (True, [], self)
      else (\<not> contains ''*/'' (strip raw), cc @ [strip raw], self))"
  by (simp add: scan_line_def Let_def comment_start_None comment_start_Some)

lemma scan_line_comment_start:
  "contains ''/**'' (strip raw) \<Longrightarrow> scan_line src n raw (ic, cc, self) = (True, [], self)"
  by (simp add: scan_line_def Let_def comment_start_None comment_start_Some)

lemma scan_lines_unterminated:
  "list_all (\<lambda>raw. \<not> contains ''*/'' (strip raw)) raws \<Longrightarrow>
   \<exists>cc'. scan_lines src n raws (True, cc, self) = (True, cc', self)"
proof (induction raws arbitrary: n cc)
  case Nil
  then show ?case by simp
next
  case (Cons raw raws)
  then have tail: "list_all (\<lambda>raw. \<not> contains ''*/'' (strip raw)) raws"
    and here: "\<not> contains ''*/'' (strip raw)" by simp_all
  have "\<exists>cc1. scan_line src (n + 1) raw (True, cc, self) = (True, cc1, self)"
    using here by (simp add: scan_line_in_comment)
  then obtain cc1 where "scan_line src (n + 1) raw (True, cc, self) = (True, cc1, self)"
    by blast
  with Cons.IH [OF tail] show ?case by simp
qed

subsection \<open>Files under a build directory\<close>

lemma scan_files_skip:
  "''build'' \<in> set (split_on (CHR ''/'') (path_str self (fst f))) \<Longrightarrow>
   scan_files (f # fs) self = scan_files fs self"
  by (simp add: segment_contains)

lemma scan_files_filter:
  "scan_files fs self =
   scan_files (filter (\<lambda>f. ''build'' \<notin> set (split_on (CHR ''/'') (path_str self (fst f)))) fs) self"
proof (induction fs arbitrary: self)
  case Nil
  then show ?case by simp
next
  case (Cons f fs)
  show ?case
  proof (cases "''build'' \<in> set (split_on (CHR ''/'') (path_str self (fst f)))")
    case True
    then show ?thesis using Cons.IH [of self] by (simp add: segment_contains)
  next
    case False
    show ?thesis
    proof (cases "contains ''build'' (path_str self (fst f))")
      case True
      with False show ?thesis using Cons.IH [of self] by simp
    next
      case c: False
      have "path_str (parse_source_file f self) = path_str self"
        by (rule ext) simp
      with False c show ?thesis using Cons.IH [of "parse_source_file f self"] by simp
    qed
  qed
qed

lemma repo_path_scan_files [simp]: "repo_path (scan_files fs self) = repo_path self"
  by (induction fs arbitrary: self) simp_all

lemma rglob_filter: "rglob (filter P tree) ext = filter P (rglob tree ext)"
  by (induction tree) (simp_all add: rglob_def)

lemma scan_exts_filter:
  "scan_exts exts tree self =
   scan_exts exts
     (filter (\<lambda>f. ''build'' \<notin> set (split_on (CHR ''/'') (path_str self (fst f)))) tree) self"
proof (induction exts arbitrary: self)
  case Nil
  then show ?case by simp
next
  case (Cons ext exts)
  let ?P = "\<lambda>s f. ''build'' \<notin> set (split_on (CHR ''/'') (path_str s (fst f)))"
  have same: "?P (scan_files fs self) = ?P self" for fs
    by (simp add: path_str_def)
  have "scan_exts (ext # exts) tree self = scan_exts exts tree (scan_files (rglob tree ext) self)"
    by simp
  also have "\<dots> = scan_exts exts (filter (?P self) tree) (scan_files (rglob tree ext) self)"
    using Cons.IH [of "scan_files (rglob tree ext) self"] by (simp add: same)
  also have "scan_files (rglob tree ext) self = scan_files (rglob (filter (?P self) tree) ext) self"
    using scan_files_filter [of "rglob tree ext" self] by (simp add: rglob_filter)
  finally show ?case by simp
qed

lemma repo_path_parse_parameter [simp]:
  "repo_path (snd (parse_parameter param grp self)) = repo_path self"
  by (simp add: parse_parameter_def split: sum.splits)

lemma repo_path_ingest_parameters [simp]:
  "repo_path (ingest_parameters g params self) = repo_path self"
proof (induction params arbitrary: self)
  case Nil
  then show ?case by simp
next
  case (Cons param params)
  have "repo_path (snd (parse_parameter param g self)) = repo_path self" by simp
  then show ?case
    using Cons.IH by (cases "parse_parameter param g self") (auto split: option.splits)
qed

lemma repo_path_ingest_groups [simp]: "repo_path (ingest_groups grps self) = repo_path self"
  by (induction grps arbitrary: self) simp_all

lemma repo_path_parse_xml_file [simp]: "repo_path (parse_xml_file p doc self) = repo_path self"
  by (simp add: parse_xml_file_def parse_xml_file_try_def split: sum.splits)

lemma repo_path_scan_exts [simp]: "repo_path (scan_exts exts tree self) = repo_path self"
  by (induction exts arbitrary: self) simp_all

section \<open>The XML ingestor: exceptions while a document is ingested\<close>

lemma ingest_parameters_append:
  "ingest_parameters g (xs @ ys) self = ingest_parameters g ys (ingest_parameters g xs self)"
proof (induction xs arbitrary: self)
  case Nil
  then show ?case by simp
next
  case (Cons x xs)
  then show ?case
    by (cases "parse_parameter x g self") (auto split: option.splits)
qed

lemma ingest_groups_append:
  "ingest_groups (xs @ ys) self = ingest_groups ys (ingest_groups xs self)"
  by (induction xs arbitrary: self) simp_all

lemma ingest_parameter_raises:
  "parse_parameter_try param g = Inl e \<Longrightarrow>
   ingest_parameters g (param # params) self =
     ingest_parameters g params
       (log_msg ERROR (Error_parsing_parameter (attrib_get param ''name'' ''unknown'') e) self)"
  by (simp add: parse_parameter_def)

lemma ingest_parameter_stores:
  "parse_parameter_try param g = Inr (Some md) \<Longrightarrow>
   ingest_parameters g (param # params) self =
     ingest_parameters g params
       (log_msg DEBUG (Parsed_parameter_from_XML (name md)) (set_parameter (name md) md self))"
  by (simp add: parse_parameter_def)

lemma ingest_parameter_skips:
  "parse_parameter_try param g = Inr None \<Longrightarrow>
   ingest_parameters g (param # params) self = ingest_parameters g params self"
  by (simp add: parse_parameter_def)

lemma ingest_parameters_cong:
  "parameters s1 = parameters s2 \<Longrightarrow>
   parameters (ingest_parameters g ps s1) = parameters (ingest_parameters g ps s2)"
proof (induction ps arbitrary: s1 s2)
  case Nil
  then show ?case by simp
next
  case (Cons x ps)
  show ?case
  proof (cases "parse_parameter_try x g")
    case (Inl e)
    have "parameters (ingest_parameters g ps
             (log_msg ERROR (Error_parsing_parameter (attrib_get x ''name'' ''unknown'') e) s1)) =
          parameters (ingest_parameters g ps
             (log_msg ERROR (Error_parsing_parameter (attrib_get x ''name'' ''unknown'') e) s2))"
      by (rule Cons.IH) (simp add: Cons.prems)
    with Inl show ?thesis by (simp add: parse_parameter_def)
  next
    case (Inr r)
    show ?thesis
    proof (cases r)
      case None
      have "parameters (ingest_parameters g ps s1) = parameters (ingest_parameters g ps s2)"
        by (rule Cons.IH) (rule Cons.prems)
      with Inr None show ?thesis by (simp add: parse_parameter_def)
    next
      case (Some md)
      have "parameters (ingest_parameters g ps
               (log_msg DEBUG (Parsed_parameter_from_XML (name md))
                  (set_parameter (name md) md s1))) =
            parameters (ingest_parameters g ps
               (log_msg DEBUG (Parsed_parameter_from_XML (name md))
                  (set_parameter (name md) md s2)))"
        by (rule Cons.IH) (simp add: Cons.prems)
      with Inr Some show ?thesis by (simp add: parse_parameter_def)
    qed
  qed
qed

text \<open>
  An exception raised while one parameter of the document is read does not undo what the
  document has contributed. Here the second of three parameters has a \<open>min\<close> child that
  has a child of its own and the text \<open>abc\<close>, on which \<open>float\<close> raises: the error is
  logged with the name \<open>B\<close>, and the mapping, empty before, holds \<open>A\<close> and \<open>C\<close>.
\<close>

theorem parameter_exception_keeps_other_entries:
  "parse_parameter_try
     (Element ''parameter'' [(''name'', ''B'')] None
        [Element ''min'' [] (Some ''abc'') [Element ''x'' [] None []]]) ''G'' = Inl ValueError \<and>
   parameters (init ''/repo'' ''/out'') = [] \<and>
   map fst (parameters (parse_xml_file ''/repo/x.xml''
      (Inr (Element ''parameters'' [] None
         [Element ''group'' [(''name'', ''G'')] None
            [Element ''parameter'' [(''name'', ''A'')] None [],
             Element ''parameter'' [(''name'', ''B'')] None
               [Element ''min'' [] (Some ''abc'') [Element ''x'' [] None []]],
             Element ''parameter'' [(''name'', ''C'')] None []]]))
      (init ''/repo'' ''/out''))) = [''A'', ''C''] \<and>
   logger (parse_xml_file ''/repo/x.xml''
      (Inr (Element ''parameters'' [] None
         [Element ''group'' [(''name'', ''G'')] None
            [Element ''parameter'' [(''name'', ''A'')] None [],
             Element ''parameter'' [(''name'', ''B'')] None
               [Element ''min'' [] (Some ''abc'') [Element ''x'' [] None []]],
             Element ''parameter'' [(''name'', ''C'')] None []]]))
      (init ''/repo'' ''/out'')) =
   [(INFO, Output_directory_set_to ''/out''),
    (DEBUG, Parsed_parameter_from_XML ''A''),
    (ERROR, Error_parsing_parameter ''B'' ValueError),
    (DEBUG, Parsed_parameter_from_XML ''C'')]"
  by (intro conjI; code_simp)

text \<open>
  Claim C2, amended. The handler of \<open>parse_xml_file\<close> runs only when \<open>ET.parse\<close> raises,
  which is before any entry is stored: the mapping is then the one from before the call
  and the error is logged once, with the path and the exception. When the document is
  parsed, \<open>parse_xml_file\<close> is the loop over its groups and their parameters, and an
  exception raised while one parameter is read is caught in \<open>_parse_parameter\<close>: it is
  logged with the name of the parameter, the entries stored from the parameters before it
  stay, the parameters after it are ingested, and the mapping is in the end the one the
  document without that parameter gives. In both cases \<open>parse_xml_file\<close> returns a parser
  and raises nothing.
\<close>

theorem parse_xml_file_exceptions:
  "(snd (parse_xml_file_try doc self) = Some e \<longrightarrow>
      doc = Inl e \<and>
      parameters (parse_xml_file xml_path doc self) = parameters self \<and>
      logger (parse_xml_file xml_path doc self) = logger self @ [(ERROR, Error_parsing xml_path e)]) \<and>
   parse_xml_file xml_path (Inr root_elem) self = ingest_groups (findall root_elem ''group'') self \<and>
   ingest_groups (grps @ grp # grps') self =
     ingest_groups grps'
       (ingest_parameters (attrib_get grp ''name'' ''Uncategorized'') (findall grp ''parameter'')
          (ingest_groups grps self)) \<and>
   (parse_parameter_try param g = Inl e' \<longrightarrow>
      ingest_parameters g (params @ param # params') self =
        ingest_parameters g params'
          (log_msg ERROR (Error_parsing_parameter (attrib_get param ''name'' ''unknown'') e')
             (ingest_parameters g params self)) \<and>
      parameters (ingest_parameters g (params @ param # params') self) =
        parameters (ingest_parameters g (params @ params') self))"
proof (intro conjI impI)
  assume a: "snd (parse_xml_file_try doc self) = Some e"
  then show d: "doc = Inl e" by (cases doc) (simp_all add: parse_xml_file_try_def)
  show "parameters (parse_xml_file xml_path doc self) = parameters self"
    unfolding d by (simp add: parse_xml_file_def parse_xml_file_try_def)
  show "logger (parse_xml_file xml_path doc self) = logger self @ [(ERROR, Error_parsing xml_path e)]"
    unfolding d by (simp add: parse_xml_file_def parse_xml_file_try_def)
next
  show "parse_xml_file xml_path (Inr root_elem) self = ingest_groups (findall root_elem ''group'') self"
    by (simp add: parse_xml_file_def parse_xml_file_try_def)
  show "ingest_groups (grps @ grp # grps') self =
     ingest_groups grps'
       (ingest_parameters (attrib_get grp ''name'' ''Uncategorized'') (findall grp ''parameter'')
          (ingest_groups grps self))"
    by (simp add: ingest_groups_append)
next
  assume r: "parse_parameter_try param g = Inl e'"
  then show s: "ingest_parameters g (params @ param # params') self =
        ingest_parameters g params'
          (log_msg ERROR (Error_parsing_parameter (attrib_get param ''name'' ''unknown'') e')
             (ingest_parameters g params self))"
    by (simp add: ingest_parameters_append ingest_parameter_raises del: ingest_parameters.simps)
  have "parameters (ingest_parameters g (params @ param # params') self) =
        parameters (ingest_parameters g params'
          (log_msg ERROR (Error_parsing_parameter (attrib_get param ''name'' ''unknown'') e')
             (ingest_parameters g params self)))"
    by (simp only: s)
  also have "\<dots> = parameters (ingest_parameters g params' (ingest_parameters g params self))"
    by (rule ingest_parameters_cong) simp
  also have "\<dots> = parameters (ingest_parameters g (params @ params') self)"
    by (simp only: ingest_parameters_append)
  finally show "parameters (ingest_parameters g (params @ param # params') self) =
        parameters (ingest_parameters g (params @ params') self)" .
qed

theorem parse_xml_file_exceptions_witness:
  "snd (parse_xml_file_try (Inl ParseError) (init ''/repo'' ''/out'')) = Some ParseError \<and>
   parameters (parse_xml_file ''/repo/p.xml'' (Inl ParseError) (init ''/repo'' ''/out'')) =
     parameters (init ''/repo'' ''/out'') \<and>
   logger (parse_xml_file ''/repo/p.xml'' (Inl ParseError) (init ''/repo'' ''/out'')) =
     logger (init ''/repo'' ''/out'') @ [(ERROR, Error_parsing ''/repo/p.xml'' ParseError)] \<and>
   parse_parameter_try
     (Element ''parameter'' [(''name'', ''B'')] None
        [Element ''min'' [] (Some ''abc'') [Element ''x'' [] None []]]) ''G'' = Inl ValueError \<and>
   parameters (ingest_parameters ''G''
      ([Element ''parameter'' [(''name'', ''A'')] None []] @
       Element ''parameter'' [(''name'', ''B'')] None
         [Element ''min'' [] (Some ''abc'') [Element ''x'' [] None []]] #
       [Element ''parameter'' [(''name'', ''C'')] None []])
      (init ''/repo'' ''/out'')) =
   parameters (ingest_parameters ''G''
      ([Element ''parameter'' [(''name'', ''A'')] None []] @
       [Element ''parameter'' [(''name'', ''C'')] None []])
      (init ''/repo'' ''/out'')) \<and>
   map fst (parameters (ingest_parameters ''G''
      ([Element ''parameter'' [(''name'', ''A'')] None []] @
       [Element ''parameter'' [(''name'', ''C'')] None []])
      (init ''/repo'' ''/out''))) = [''A'', ''C'']"
proof -
  have h1: "snd (parse_xml_file_try (Inl ParseError) (init ''/repo'' ''/out'')) = Some ParseError"
    by (simp add: parse_xml_file_try_def)
  have h2: "parse_parameter_try
     (Element ''parameter'' [(''name'', ''B'')] None
        [Element ''min'' [] (Some ''abc'') [Element ''x'' [] None []]]) ''G'' = Inl ValueError"
    by code_simp
  have h3: "map fst (parameters (ingest_parameters ''G''
      ([Element ''parameter'' [(''name'', ''A'')] None []] @
       [Element ''parameter'' [(''name'', ''C'')] None []])
      (init ''/repo'' ''/out''))) = [''A'', ''C'']"
    by code_simp
  note t = parse_xml_file_exceptions
    [where doc = "Inl ParseError" and self = "init ''/repo'' ''/out''" and e = ParseError
       and xml_path = "''/repo/p.xml''" and g = "''G''" and e' = ValueError
       and param = "Element ''parameter'' [(''name'', ''B'')] None
         [Element ''min'' [] (Some ''abc'') [Element ''x'' [] None []]]"
       and params = "[Element ''parameter'' [(''name'', ''A'')] None []]"
       and params' = "[Element ''parameter'' [(''name'', ''C'')] None []]"]
  from t h1 have c1:
    "parameters (parse_xml_file ''/repo/p.xml'' (Inl ParseError) (init ''/repo'' ''/out'')) =
       parameters (init ''/repo'' ''/out'')"
    "logger (parse_xml_file ''/repo/p.xml'' (Inl ParseError) (init ''/repo'' ''/out'')) =
       logger (init ''/repo'' ''/out'') @ [(ERROR, Error_parsing ''/repo/p.xml'' ParseError)]"
    by blast+
  from t h2 have c2: "parameters (ingest_parameters ''G''
      ([Element ''parameter'' [(''name'', ''A'')] None []] @
       Element ''parameter'' [(''name'', ''B'')] None
         [Element ''min'' [] (Some ''abc'') [Element ''x'' [] None []]] #
       [Element ''parameter'' [(''name'', ''C'')] None []])
      (init ''/repo'' ''/out'')) =
   parameters (ingest_parameters ''G''
      ([Element ''parameter'' [(''name'', ''A'')] None []] @
       [Element ''parameter'' [(''name'', ''C'')] None []])
      (init ''/repo'' ''/out''))"
    by blast
  from h1 c1 h2 c2 h3 show ?thesis by (intro conjI)
qed

section \<open>The scanner inside a comment\<close>

text \<open>
  A line read inside a comment that contains the comment opener is not appended: the
  buffer is emptied and the scanner stays inside the comment.
\<close>

theorem inside_comment_line_with_opener_not_appended:
  "scan_line ''a.c'' 2 ''/** b'' (True, [''* a''], init ''/repo'' ''/out'') =
     (True, [], init ''/repo'' ''/out'') \<and>
   fst (snd (scan_line ''a.c'' 2 ''/** b'' (True, [''* a''], init ''/repo'' ''/out''))) \<noteq>
     [''* a'', ''/** b'']"
  by (simp add: scan_line_in_comment strip_def strip_chars_def is_space_def)

text \<open>
  Claim C3, amended. Inside a comment, a line that does not contain \<open>/**\<close> is appended
  to the buffer after \<open>strip()\<close>, and the scanner leaves the comment exactly when the
  line contains \<open>*/\<close>, the closing line being appended too; a line that contains \<open>/**\<close>
  empties the buffer and keeps the scanner inside the comment.
\<close>

theorem inside_comment_step:
  "scan_line src n raw (True, cc, self) =
     (if contains ''/**'' (strip raw) then (True, [], self)
      else (\<not> contains ''*/'' (strip raw), cc @ [strip raw], self))"
  by (rule scan_line_in_comment)

text \<open>
  Claim C6. On a line that contains the comment opener only the comment branch runs,
  whatever else the line holds: the parser is untouched, so no macro is processed. A line
  read inside a comment never changes the parser, so it produces no entry and no log
  message. And after an opener, as long as no line contains \<open>*/\<close>, the scanner stays inside
  the comment and the parser stays as it was: every macro line there is swallowed.
\<close>

theorem comment_open_excludes_macro:
  "(contains ''/**'' (strip raw) \<longrightarrow> scan_line src n raw (ic, cc, self) = (True, [], self)) \<and>
   snd (snd (scan_line src n raw (True, cc, self))) = self \<and>
   (list_all (\<lambda>raw. \<not> contains ''*/'' (strip raw)) raws \<longrightarrow>
      fst (scan_lines src n raws (True, cc, self)) = True \<and>
      snd (snd (scan_lines src n raws (True, cc, self))) = self)"
proof (intro conjI impI)
  assume "contains ''/**'' (strip raw)"
  then show "scan_line src n raw (ic, cc, self) = (True, [], self)"
    by (rule scan_line_comment_start)
next
  show "snd (snd (scan_line src n raw (True, cc, self))) = self"
    by (simp add: scan_line_in_comment)
next
  assume "list_all (\<lambda>raw. \<not> contains ''*/'' (strip raw)) raws"
  from scan_lines_unterminated [OF this, of src n cc self]
  obtain cc' where r: "scan_lines src n raws (True, cc, self) = (True, cc', self)" by blast
  show "fst (scan_lines src n raws (True, cc, self)) = True" by (simp add: r)
  show "snd (snd (scan_lines src n raws (True, cc, self))) = self" by (simp add: r)
qed

theorem comment_open_excludes_macro_witness:
  "contains ''/**'' (strip ''/** c */ PARAM_DEFINE_FLOAT(A, 1);'') \<and>
   search_param_define (strip ''/** c */ PARAM_DEFINE_FLOAT(A, 1);'') = Some (''FLOAT'', ''A'', ''1'') \<and>
   scan_line ''a.c'' 1 ''/** c */ PARAM_DEFINE_FLOAT(A, 1);'' (False, [], init ''/repo'' ''/out'') =
     (True, [], init ''/repo'' ''/out'') \<and>
   snd (snd (scan_line ''a.c'' 1 ''PARAM_DEFINE_FLOAT(A, 1);'' (True, [], init ''/repo'' ''/out''))) =
     init ''/repo'' ''/out'' \<and>
   list_all (\<lambda>raw. \<not> contains ''*/'' (strip raw)) [''PARAM_DEFINE_FLOAT(A, 1);''] \<and>
   fst (scan_lines ''a.c'' 1 [''PARAM_DEFINE_FLOAT(A, 1);''] (True, [], init ''/repo'' ''/out'')) = True \<and>
   snd (snd (scan_lines ''a.c'' 1 [''PARAM_DEFINE_FLOAT(A, 1);''] (True, [], init ''/repo'' ''/out''))) =
     init ''/repo'' ''/out''"
proof -
  have h1: "contains ''/**'' (strip ''/** c */ PARAM_DEFINE_FLOAT(A, 1);'')"
    by (simp add: strip_def strip_chars_def is_space_def)
  have h2: "search_param_define (strip ''/** c */ PARAM_DEFINE_FLOAT(A, 1);'') = Some (''FLOAT'', ''A'', ''1'')"
    by code_simp
  have h3: "list_all (\<lambda>raw. \<not> contains ''*/'' (strip raw)) [''PARAM_DEFINE_FLOAT(A, 1);'']"
    by (simp add: strip_def strip_chars_def is_space_def)
  note t1 = comment_open_excludes_macro
    [of "''/** c */ PARAM_DEFINE_FLOAT(A, 1);''" "''a.c''" 1 False "[]" "init ''/repo'' ''/out''" "[]"]
  note t2 = comment_open_excludes_macro
    [of "''PARAM_DEFINE_FLOAT(A, 1);''" "''a.c''" 1 True "[]" "init ''/repo'' ''/out''"
      "[''PARAM_DEFINE_FLOAT(A, 1);'']"]
  from t1 h1 have a: "scan_line ''a.c'' 1 ''/** c */ PARAM_DEFINE_FLOAT(A, 1);''
      (False, [], init ''/repo'' ''/out'') = (True, [], init ''/repo'' ''/out'')"
    by blast
  from t2 have b: "snd (snd (scan_line ''a.c'' 1 ''PARAM_DEFINE_FLOAT(A, 1);''
      (True, [], init ''/repo'' ''/out''))) = init ''/repo'' ''/out''"
    by blast
  from t2 h3 have c: "fst (scan_lines ''a.c'' 1 [''PARAM_DEFINE_FLOAT(A, 1);'']
        (True, [], init ''/repo'' ''/out'')) = True \<and>
      snd (snd (scan_lines ''a.c'' 1 [''PARAM_DEFINE_FLOAT(A, 1);'']
        (True, [], init ''/repo'' ''/out''))) = init ''/repo'' ''/out''"
    by blast
  from h1 h2 h3 a b c show ?thesis by blast
qed

section \<open>Files under a build directory\<close>



text \<open>
  Claim C8. A file whose path has the segment \<open>build\<close> is skipped by the loop over the
  files, whatever its extension and its contents, and the whole pipeline gives the same
  result on a tree without such files: the extractor is never run on one of them.
\<close>

theorem build_paths_never_scanned:
  "(''build'' \<in> set (split_on (CHR ''/'') (path_str self (fst f))) \<longrightarrow>
      scan_files (f # fs) self = scan_files fs self) \<and>
   parse_all injected tree wr self =
     parse_all injected
       (filter (\<lambda>f. ''build'' \<notin> set (split_on (CHR ''/'') (path_str self (fst f)))) tree)
       wr self"
proof
  show "''build'' \<in> set (split_on (CHR ''/'') (path_str self (fst f))) \<longrightarrow>
      scan_files (f # fs) self = scan_files fs self"
    using scan_files_skip by blast
next
  let ?P = "\<lambda>s f. ''build'' \<notin> set (split_on (CHR ''/'') (path_str s (fst f)))"
  define self3 where
    "self3 = log_msg INFO Scanning_source_files
       (case injected of
          None \<Rightarrow> log_msg INFO Starting_parameter_parsing self
        | Some doc \<Rightarrow>
            parse_xml_file (path_str self ''src/lib/parameters/parameters_injected.xml'') doc
              (log_msg INFO
                 (Parsing_injected_parameters_from
                    (path_str self ''src/lib/parameters/parameters_injected.xml''))
                 (log_msg INFO Starting_parameter_parsing self)))"
  have "repo_path self3 = repo_path self"
    by (simp add: self3_def split: option.splits)
  then have same: "?P self3 = ?P self" by (simp add: path_str_def)
  have "scan_exts [''.c'', ''.cpp'', ''.h'', ''.hpp''] tree self3 =
        scan_exts [''.c'', ''.cpp'', ''.h'', ''.hpp''] (filter (?P self) tree) self3"
    using scan_exts_filter [of _ tree self3] by (simp only: same)
  then show "parse_all injected tree wr self = parse_all injected (filter (?P self) tree) wr self"
    by (simp only: parse_all_def Let_def self3_def)
qed

theorem build_paths_never_scanned_witness:
  "''build'' \<in> set (split_on (CHR ''/'') (path_str (init ''/repo'' ''/out'') ''build/gen/params.c'')) \<and>
   scan_files [(''build/gen/params.c'', Inr ''PARAM_DEFINE_FLOAT(A, 1);'')] (init ''/repo'' ''/out'') =
     init ''/repo'' ''/out''"
proof -
  have h: "''build'' \<in> set (split_on (CHR ''/'') (path_str (init ''/repo'' ''/out'') ''build/gen/params.c''))"
    by (simp add: path_str_def init_def)
  from build_paths_never_scanned
    [of "init ''/repo'' ''/out''" "(''build/gen/params.c'', Inr ''PARAM_DEFINE_FLOAT(A, 1);'')" "[]",
      THEN conjunct1]
  have "''build'' \<in> set (split_on (CHR ''/'') (path_str (init ''/repo'' ''/out'') ''build/gen/params.c'')) \<longrightarrow>
     scan_files [(''build/gen/params.c'', Inr ''PARAM_DEFINE_FLOAT(A, 1);'')] (init ''/repo'' ''/out'') =
     scan_files [] (init ''/repo'' ''/out'')"
    by (simp only: fst_conv)
  with h have "scan_files [(''build/gen/params.c'', Inr ''PARAM_DEFINE_FLOAT(A, 1);'')] (init ''/repo'' ''/out'') =
     scan_files [] (init ''/repo'' ''/out'')"
    by (rule rev_mp)
  then have "scan_files [(''build/gen/params.c'', Inr ''PARAM_DEFINE_FLOAT(A, 1);'')] (init ''/repo'' ''/out'') =
     init ''/repo'' ''/out''"
    by (simp only: scan_files.simps)
  with h show ?thesis by (rule conjI)
qed

section \<open>The optional children of an XML parameter\<close>

text \<open>
  Claim C1 fails on the code. The tests of lines 211 to 217 take the truth value of the
  element \<open>find\<close> returns, and an element without child elements is false: for a
  parameter whose \<open>min\<close>, \<open>max\<close>, \<open>unit\<close> and \<open>decimal\<close> children hold text only, none of the
  four fields is set. Lines 204, 205 and 222 test \<open>is not None\<close> instead.
\<close>

theorem xml_text_only_children_ignored:
  "parse_parameter_try
     (Element ''parameter'' [(''name'', ''P''), (''type'', ''FLOAT''), (''default'', ''1.0'')] None
        [Element ''short_desc'' [] (Some ''d'') [],
         Element ''min'' [] (Some ''0'') [],
         Element ''max'' [] (Some ''10'') [],
         Element ''unit'' [] (Some ''m'') [],
         Element ''decimal'' [] (Some ''2'') []]) ''G'' =
   Inr (Some \<lparr>name = ''P'', type = ''FLOAT'', default = ''1.0'', short_desc = Some ''d'',
      long_desc = Some [], min_val = None, max_val = None, unit = None, decimal = None,
      group = ''G'', values_p = [], volatile = False, category = ''Standard'',
      source_file = None, line_number = None\<rparr>)"
  by code_simp

section \<open>The end-to-end example\<close>

text \<open>
  Claim C4. For the file whose lines are the comment block \<open>/**\<close>, \<open>* Short desc\<close>,
  \<open>* @min 0\<close>, \<open>* @max 10\<close>, \<open>* @group Test\<close>, \<open>*/\<close> and then
  \<open>PARAM_DEFINE_FLOAT(MY_PARAM, 1.5);\<close>, the extractor stores one entry, under
  \<open>MY_PARAM\<close>, with type \<open>FLOAT\<close>, default \<open>1.5\<close>, short description \<open>Short desc\<close>, bounds
  0 and 10 and group \<open>Test\<close>; the other fields are the defaults, and the file and line 7.
\<close>

theorem end_to_end_example:
  "parameters (parse_source_file
      (''src/modules/demo/params.c'',
       Inr (''/**'' @ CHR 0x0A # ''* Short desc'' @ CHR 0x0A # ''* @min 0'' @ CHR 0x0A #
            ''* @max 10'' @ CHR 0x0A # ''* @group Test'' @ CHR 0x0A # ''*/'' @ CHR 0x0A #
            ''PARAM_DEFINE_FLOAT(MY_PARAM, 1.5);''))
      (init ''/repo'' ''/out'')) =
   [(''MY_PARAM'',
     \<lparr>name = ''MY_PARAM'', type = ''FLOAT'', default = ''1.5'', short_desc = Some ''Short desc'',
      long_desc = Some [], min_val = Some (Finite 0), max_val = Some (Finite 10), unit = None,
      decimal = None, group = ''Test'', values_p = [], volatile = False,
      category = ''Standard'', source_file = Some ''src/modules/demo/params.c'',
      line_number = Some 7\<rparr>)]"
  by code_simp

section \<open>A parameter whose numeric tag cannot be parsed\<close>

lemma bind_exn_InrE:
  assumes "bind_exn m f = Inr y"
  obtains x where "m = Inr x" and "f x = Inr y"
  using assms by (cases m) (simp_all add: bind_exn_def)

lemma bind_exn_Inl [simp]: "bind_exn (Inl e) f = Inl e"
  by (simp add: bind_exn_def)

lemma bind_exn_Inr [simp]: "bind_exn (Inr x) f = f x"
  by (simp add: bind_exn_def)

lemma add_min_keeps:
  "add_min md p = Inr q \<Longrightarrow>
   name q = name p \<and> type q = type p \<and> default q = default p \<and>
   source_file q = source_file p \<and> line_number q = line_number p"
  by (auto simp: add_min_def split: option.splits elim!: bind_exn_InrE)

lemma add_max_keeps:
  "add_max md p = Inr q \<Longrightarrow>
   name q = name p \<and> type q = type p \<and> default q = default p \<and>
   source_file q = source_file p \<and> line_number q = line_number p"
  by (auto simp: add_max_def split: option.splits elim!: bind_exn_InrE)

lemma add_unit_keeps:
  "add_unit md p = Inr q \<Longrightarrow>
   name q = name p \<and> type q = type p \<and> default q = default p \<and>
   source_file q = source_file p \<and> line_number q = line_number p"
  by (auto simp: add_unit_def split: option.splits)

lemma add_decimal_keeps:
  "add_decimal md p = Inr q \<Longrightarrow>
   name q = name p \<and> type q = type p \<and> default q = default p \<and>
   source_file q = source_file p \<and> line_number q = line_number p"
  by (auto simp: add_decimal_def split: option.splits elim!: bind_exn_InrE)

lemma add_volatile_keeps:
  "add_volatile md p = Inr q \<Longrightarrow>
   name q = name p \<and> type q = type p \<and> default q = default p \<and>
   source_file q = source_file p \<and> line_number q = line_number p"
  by (auto simp: add_volatile_def split: option.splits)

lemma add_category_keeps:
  "add_category md p = Inr q \<Longrightarrow>
   name q = name p \<and> type q = type p \<and> default q = default p \<and>
   source_file q = source_file p \<and> line_number q = line_number p"
  by (auto simp: add_category_def split: option.splits)

lemma chain_keeps:
  assumes "bind_exn (add_min md p0) (\<lambda>param. bind_exn (add_max md param)
            (\<lambda>param. bind_exn (add_unit md param)
            (\<lambda>param. bind_exn (add_decimal md param)
            (\<lambda>param. bind_exn (add_volatile md param)
            (\<lambda>param. add_category md param))))) = Inr p"
  shows "name p = name p0 \<and> type p = type p0 \<and> default p = default p0 \<and>
         source_file p = source_file p0 \<and> line_number p = line_number p0"
  using assms
  by (elim bind_exn_InrE)
    (auto dest!: add_min_keeps add_max_keeps add_unit_keeps add_decimal_keeps
      add_volatile_keeps add_category_keeps)

lemma try_name_source:
  assumes "process_parameter_definition_try t nm d cc src n = Inr p"
  shows "name p = nm \<and> type p = t \<and> default p = d \<and>
         source_file p = Some src \<and> line_number p = Some n"
proof -
  obtain sd ld md where pc: "parse_comment cc ([], [], Map.empty) = (sd, ld, md)"
    by (cases "parse_comment cc ([], [], Map.empty)")
  from chain_keeps
    [OF assms [unfolded process_parameter_definition_try_def pc prod.case bind_exn_Inr]]
  show ?thesis by simp
qed

lemma add_unit_Inr: "\<exists>q. add_unit md p = Inr q"
  by (simp add: add_unit_def split: option.splits)

lemma add_min_bad: "md ''min'' = Some v \<Longrightarrow> isl (py_float v) \<Longrightarrow> \<exists>e. add_min md p = Inl e"
  by (cases "py_float v") (simp_all add: add_min_def)

lemma add_max_bad: "md ''max'' = Some v \<Longrightarrow> isl (py_float v) \<Longrightarrow> \<exists>e. add_max md p = Inl e"
  by (cases "py_float v") (simp_all add: add_max_def)

lemma add_decimal_bad: "md ''decimal'' = Some v \<Longrightarrow> isl (py_int v) \<Longrightarrow> \<exists>e. add_decimal md p = Inl e"
  by (cases "py_int v") (simp_all add: add_decimal_def)

lemma bad_numeric_tag_raises:
  assumes "bad_numeric_tag (comment_tags cc)"
  shows "\<exists>e. process_parameter_definition_try t nm d cc src n = Inl e"
proof -
  obtain sd ld md where pc: "parse_comment cc ([], [], Map.empty) = (sd, ld, md)"
    by (cases "parse_comment cc ([], [], Map.empty)")
  then have md: "comment_tags cc = md" by (simp add: comment_tags_def)
  have chain: "\<exists>e. bind_exn (add_min md p0) (\<lambda>param. bind_exn (add_max md param)
            (\<lambda>param. bind_exn (add_unit md param)
            (\<lambda>param. bind_exn (add_decimal md param)
            (\<lambda>param. bind_exn (add_volatile md param)
            (\<lambda>param. add_category md param))))) = Inl e" for p0
  proof (cases "add_min md p0")
    case (Inl e)
    then show ?thesis by simp
  next
    case r1: (Inr p1)
    show ?thesis
    proof (cases "add_max md p1")
      case (Inl e)
      with r1 show ?thesis by simp
    next
      case r2: (Inr p2)
      obtain p3 where r3: "add_unit md p2 = Inr p3" using add_unit_Inr by blast
      have nomin: "\<not> (\<exists>v. md ''min'' = Some v \<and> isl (py_float v))"
        using add_min_bad [of md _ p0] r1 by auto
      have nomax: "\<not> (\<exists>v. md ''max'' = Some v \<and> isl (py_float v))"
        using add_max_bad [of md _ p1] r2 by auto
      from assms md nomin nomax obtain v where "md ''decimal'' = Some v" "isl (py_int v)"
        by (auto simp: bad_numeric_tag_def split: option.splits)
      then have "\<exists>e. add_decimal md p3 = Inl e" by (rule add_decimal_bad)
      then obtain e where "add_decimal md p3 = Inl e" by blast
      with r1 r2 r3 show ?thesis by simp
    qed
  qed
  show ?thesis
    unfolding process_parameter_definition_try_def pc prod.case bind_exn_Inr
    by (rule chain)
qed

text \<open>
  A comment may give a numeric tag twice. The dictionary keeps the last value, so a first
  \<open>@min\<close> that is not a number does no harm when a later \<open>@min\<close> is one: the entry is
  stored, with the later bound.
\<close>

theorem earlier_unparsable_min_is_overridden:
  "search_comment_tag (strip_chars is_decoration ''* @min abc'') = Some (''min'', ''abc'') \<and>
   py_float ''abc'' = Inl ValueError \<and>
   parameters (snd (snd (scan_line ''a.c'' 5 ''PARAM_DEFINE_FLOAT(P, 1);''
      (False, [''* @min abc'', ''* @min 5'', ''*/''], init ''/repo'' ''/out'')))) =
   [(''P'',
     \<lparr>name = ''P'', type = ''FLOAT'', default = ''1'', short_desc = Some [],
      long_desc = Some [], min_val = Some (Finite 5), max_val = None, unit = None,
      decimal = None, group = ''Uncategorized'', values_p = [], volatile = False,
      category = ''Standard'', source_file = Some ''a.c'', line_number = Some 5\<rparr>)]"
proof (intro conjI)
  show "search_comment_tag (strip_chars is_decoration ''* @min abc'') = Some (''min'', ''abc'')"
    by code_simp
  show "py_float ''abc'' = Inl ValueError"
    by code_simp
  show "parameters (snd (snd (scan_line ''a.c'' 5 ''PARAM_DEFINE_FLOAT(P, 1);''
      (False, [''* @min abc'', ''* @min 5'', ''*/''], init ''/repo'' ''/out'')))) =
   [(''P'',
     \<lparr>name = ''P'', type = ''FLOAT'', default = ''1'', short_desc = Some [],
      long_desc = Some [], min_val = Some (Finite 5), max_val = None, unit = None,
      decimal = None, group = ''Uncategorized'', values_p = [], volatile = False,
      category = ''Standard'', source_file = Some ''a.c'', line_number = Some 5\<rparr>)]"
    by code_simp
qed

text \<open>
  Claim C7, amended. When a macro line is matched outside a comment and the dictionary of
  the tags, in which the last occurrence of a tag wins, gives \<open>min\<close> or \<open>max\<close> a text that
  \<open>float\<close> rejects or \<open>decimal\<close> a text that \<open>int\<close> rejects (a text that is not a number
  of their grammar once the white space they remove is removed, or for \<open>int\<close> one of more
  than 4300 digits), then nothing is stored (the
  mapping is the one from before the line), one error is logged with the name of the
  parameter, the buffer is emptied, and the scan of the file goes on with the next line
  from that state.
\<close>

theorem unparsable_numeric_tag_drops_parameter:
  assumes "\<not> contains ''/**'' (strip raw)"
    and "search_param_define (strip raw) = Some (t, nm, d)"
    and "bad_numeric_tag (comment_tags cc)"
  shows "\<exists>e. scan_line src (n + 1) raw (False, cc, self) =
               (False, [], log_msg ERROR (Error_processing_parameter nm e) self) \<and>
             parameters (snd (snd (scan_line src (n + 1) raw (False, cc, self)))) =
               parameters self \<and>
             scan_lines src n (raw # raws) (False, cc, self) =
               scan_lines src (n + 1) raws
                 (False, [], log_msg ERROR (Error_processing_parameter nm e) self)"
proof -
  from bad_numeric_tag_raises [OF assms(3)]
  obtain e where e: "process_parameter_definition_try t nm d cc src (n + 1) = Inl e"
    by blast
  have step: "scan_line src (n + 1) raw (False, cc, self) =
      (False, [], log_msg ERROR (Error_processing_parameter nm e) self)"
    using assms(1,2) e
    by (simp add: scan_line_def Let_def comment_start_None comment_start_Some
        process_parameter_definition_def)
  then show ?thesis by auto
qed

theorem unparsable_numeric_tag_drops_parameter_witness:
  "\<not> contains ''/**'' (strip ''PARAM_DEFINE_FLOAT(P, 1);'') \<and>
   search_param_define (strip ''PARAM_DEFINE_FLOAT(P, 1);'') = Some (''FLOAT'', ''P'', ''1'') \<and>
   bad_numeric_tag (comment_tags [''* @min abc'', ''*/'']) \<and>
   (\<exists>e. scan_line ''a.c'' (3 + 1) ''PARAM_DEFINE_FLOAT(P, 1);''
           (False, [''* @min abc'', ''*/''], init ''/repo'' ''/out'') =
         (False, [], log_msg ERROR (Error_processing_parameter ''P'' e) (init ''/repo'' ''/out'')) \<and>
        parameters (snd (snd (scan_line ''a.c'' (3 + 1) ''PARAM_DEFINE_FLOAT(P, 1);''
           (False, [''* @min abc'', ''*/''], init ''/repo'' ''/out'')))) =
         parameters (init ''/repo'' ''/out'') \<and>
        scan_lines ''a.c'' 3 [''PARAM_DEFINE_FLOAT(P, 1);'', ''PARAM_DEFINE_INT32(Q, 2);'']
           (False, [''* @min abc'', ''*/''], init ''/repo'' ''/out'') =
         scan_lines ''a.c'' (3 + 1) [''PARAM_DEFINE_INT32(Q, 2);'']
           (False, [], log_msg ERROR (Error_processing_parameter ''P'' e) (init ''/repo'' ''/out''))) \<and>
   map fst (parameters (snd (snd (scan_lines ''a.c'' 3
       [''PARAM_DEFINE_FLOAT(P, 1);'', ''PARAM_DEFINE_INT32(Q, 2);'']
       (False, [''* @min abc'', ''*/''], init ''/repo'' ''/out''))))) = [''Q'']"
proof -
  have h1: "\<not> contains ''/**'' (strip ''PARAM_DEFINE_FLOAT(P, 1);'')"
    by code_simp
  have h2: "search_param_define (strip ''PARAM_DEFINE_FLOAT(P, 1);'') = Some (''FLOAT'', ''P'', ''1'')"
    by code_simp
  have h3: "bad_numeric_tag (comment_tags [''* @min abc'', ''*/''])"
    by code_simp
  have h4: "map fst (parameters (snd (snd (scan_lines ''a.c'' 3
       [''PARAM_DEFINE_FLOAT(P, 1);'', ''PARAM_DEFINE_INT32(Q, 2);'']
       (False, [''* @min abc'', ''*/''], init ''/repo'' ''/out''))))) = [''Q'']"
    by code_simp
  note t = unparsable_numeric_tag_drops_parameter [OF h1 h2 h3,
      of "''a.c''" 3 "init ''/repo'' ''/out''" "[''PARAM_DEFINE_INT32(Q, 2);'']"]
  from h1 h2 h3 t h4 show ?thesis by (intro conjI)
qed

section \<open>One entry per name, and the source over the XML\<close>

lemma stored_log_msg [simp]:
  "stored_from_source (log_msg l m self) nm \<longleftrightarrow>
     stored_from_source self nm \<or> (l = DEBUG \<and> m = Parsed_parameter_from_source nm)"
  by (auto simp: stored_from_source_def)

lemma stored_set_parameter [simp]:
  "stored_from_source (set_parameter k p self) nm = stored_from_source self nm"
  by (simp add: stored_from_source_def)

lemma before_kept: "before_source_scan self \<Longrightarrow> source_entries_kept self"
  by (simp add: before_source_scan_def source_entries_kept_def)

lemma before_log:
  "before_source_scan self \<Longrightarrow> (\<And>nm. m \<noteq> Parsed_parameter_from_source nm) \<Longrightarrow>
   before_source_scan (log_msg l m self)"
  by (simp add: before_source_scan_def)

lemma before_set: "before_source_scan self \<Longrightarrow> before_source_scan (set_parameter k p self)"
  by (simp add: before_source_scan_def distinct_update)

lemma kept_log:
  "source_entries_kept self \<Longrightarrow> (\<And>nm. m \<noteq> Parsed_parameter_from_source nm) \<Longrightarrow>
   source_entries_kept (log_msg l m self)"
  by (simp add: source_entries_kept_def del: map_of_eq_Some_iff)

lemma kept_store:
  assumes "source_entries_kept self" and "name p = k" and "source_file p \<noteq> None"
  shows "source_entries_kept
           (log_msg DEBUG (Parsed_parameter_from_source k) (set_parameter k p self))"
  using assms
  by (auto simp: source_entries_kept_def distinct_update update_conv'
      simp del: map_of_eq_Some_iff)

lemma before_parse_parameter:
  "before_source_scan self \<Longrightarrow> before_source_scan (snd (parse_parameter param g self))"
  by (auto simp: parse_parameter_def before_log split: sum.splits)

lemma before_ingest_parameters:
  "before_source_scan self \<Longrightarrow> before_source_scan (ingest_parameters g params self)"
proof (induction params arbitrary: self)
  case Nil
  then show ?case by simp
next
  case (Cons param params)
  obtain r self' where pp: "parse_parameter param g self = (r, self')"
    by (cases "parse_parameter param g self")
  from before_parse_parameter [OF Cons.prems, of param g] pp
  have b: "before_source_scan self'" by simp
  show ?case
  proof (cases r)
    case None
    with pp b Cons.IH show ?thesis by simp
  next
    case (Some metadata)
    from b have "before_source_scan
      (log_msg DEBUG (Parsed_parameter_from_XML (name metadata))
         (set_parameter (name metadata) metadata self'))"
      by (intro before_log before_set) simp_all
    with pp Some Cons.IH show ?thesis by simp
  qed
qed

lemma before_ingest_groups:
  "before_source_scan self \<Longrightarrow> before_source_scan (ingest_groups grps self)"
  by (induction grps arbitrary: self) (simp_all add: before_ingest_parameters)

lemma before_parse_xml_file:
  "before_source_scan self \<Longrightarrow> before_source_scan (parse_xml_file p doc self)"
  by (cases doc)
    (simp_all add: parse_xml_file_def parse_xml_file_try_def before_log before_ingest_groups)

lemma kept_process:
  assumes "source_entries_kept self"
  shows "source_entries_kept (process_parameter_definition t nm d cc src n self)"
proof (cases "process_parameter_definition_try t nm d cc src n")
  case (Inl e)
  with assms show ?thesis by (simp add: process_parameter_definition_def kept_log)
next
  case (Inr p)
  from try_name_source [OF Inr] have "name p = nm" "source_file p \<noteq> None" by simp_all
  with assms Inr show ?thesis by (simp add: process_parameter_definition_def kept_store)
qed

lemma kept_scan_line:
  "source_entries_kept (snd (snd st)) \<Longrightarrow>
   source_entries_kept (snd (snd (scan_line src n raw st)))"
  by (cases st) (simp add: scan_line_def Let_def kept_process split: option.splits prod.splits)

lemma kept_scan_lines:
  "source_entries_kept (snd (snd st)) \<Longrightarrow>
   source_entries_kept (snd (snd (scan_lines src n raws st)))"
  by (induction raws arbitrary: n st) (simp_all add: kept_scan_line)

lemma kept_parse_source_file:
  "source_entries_kept self \<Longrightarrow> source_entries_kept (parse_source_file f self)"
  by (cases "snd f") (simp_all add: parse_source_file_def kept_log kept_scan_lines)

lemma kept_scan_files:
  "source_entries_kept self \<Longrightarrow> source_entries_kept (scan_files fs self)"
  by (induction fs arbitrary: self) (simp_all add: kept_parse_source_file)

lemma kept_scan_exts:
  "source_entries_kept self \<Longrightarrow> source_entries_kept (scan_exts exts tree self)"
  by (induction exts arbitrary: self) (simp_all add: kept_scan_files)

lemma kept_save_parameters:
  "source_entries_kept self \<Longrightarrow> source_entries_kept (snd (save_parameters wr self))"
  by (cases wr) (simp_all add: save_parameters_def Let_def kept_log)

lemma before_init: "before_source_scan (init repo out)"
  by (auto simp: before_source_scan_def init_def stored_from_source_def)

lemma kept_parse_all: "source_entries_kept (snd (parse_all injected tree wr (init repo out)))"
proof -
  have b1: "before_source_scan (log_msg INFO Starting_parameter_parsing (init repo out))"
    by (intro before_log before_init) simp
  have "before_source_scan
     (case injected of
        None \<Rightarrow> log_msg INFO Starting_parameter_parsing (init repo out)
      | Some doc \<Rightarrow>
          parse_xml_file (path_str (init repo out) ''src/lib/parameters/parameters_injected.xml'') doc
            (log_msg INFO
               (Parsing_injected_parameters_from
                  (path_str (init repo out) ''src/lib/parameters/parameters_injected.xml''))
               (log_msg INFO Starting_parameter_parsing (init repo out))))"
    using b1 by (cases injected) (simp_all add: before_parse_xml_file before_log)
  then show ?thesis
    unfolding parse_all_def Let_def
    by (intro kept_save_parameters kept_scan_exts kept_log before_kept before_log) simp_all
qed


lemma distinct_parse_parameter:
  "distinct (map fst (parameters self)) \<Longrightarrow>
   distinct (map fst (parameters (snd (parse_parameter param g self))))"
  by (simp add: parse_parameter_def split: sum.splits)

lemma distinct_ingest_parameters:
  "distinct (map fst (parameters self)) \<Longrightarrow>
   distinct (map fst (parameters (ingest_parameters g params self)))"
proof (induction params arbitrary: self)
  case Nil
  then show ?case by simp
next
  case (Cons param params)
  obtain r self' where pp: "parse_parameter param g self = (r, self')"
    by (cases "parse_parameter param g self")
  from distinct_parse_parameter [OF Cons.prems, of param g] pp
  have b: "distinct (map fst (parameters self'))" by simp
  show ?case
  proof (cases r)
    case None
    with pp b Cons.IH show ?thesis by simp
  next
    case (Some metadata)
    from b have "distinct (map fst (parameters
      (log_msg DEBUG (Parsed_parameter_from_XML (name metadata))
         (set_parameter (name metadata) metadata self'))))"
      by (simp add: distinct_update)
    with pp Some Cons.IH show ?thesis by simp
  qed
qed

lemma distinct_ingest_groups:
  "distinct (map fst (parameters self)) \<Longrightarrow>
   distinct (map fst (parameters (ingest_groups grps self)))"
  by (induction grps arbitrary: self) (simp_all add: distinct_ingest_parameters)

lemma distinct_parse_xml_file:
  "distinct (map fst (parameters self)) \<Longrightarrow>
   distinct (map fst (parameters (parse_xml_file p doc self)))"
  by (cases doc)
    (simp_all add: parse_xml_file_def parse_xml_file_try_def distinct_ingest_groups)

lemma distinct_process:
  "distinct (map fst (parameters self)) \<Longrightarrow>
   distinct (map fst (parameters (process_parameter_definition t nm d cc src n self)))"
  by (simp add: process_parameter_definition_def distinct_update split: sum.splits)

lemma distinct_scan_line:
  "distinct (map fst (parameters (snd (snd st)))) \<Longrightarrow>
   distinct (map fst (parameters (snd (snd (scan_line src n raw st)))))"
  by (cases st) (simp add: scan_line_def Let_def distinct_process split: option.splits prod.splits)

lemma distinct_scan_lines:
  "distinct (map fst (parameters (snd (snd st)))) \<Longrightarrow>
   distinct (map fst (parameters (snd (snd (scan_lines src n raws st)))))"
  by (induction raws arbitrary: n st) (simp_all add: distinct_scan_line)

lemma distinct_parse_source_file:
  "distinct (map fst (parameters self)) \<Longrightarrow>
   distinct (map fst (parameters (parse_source_file f self)))"
  by (cases "snd f") (simp_all add: parse_source_file_def distinct_scan_lines)

text \<open>
  A name defined in the XML document and by a macro line of a scanned file keeps its XML
  entry when the construction of the source entry raises: here the comment gives \<open>@min\<close>
  a text that is not a number, the parameter of the source is dropped, and the final
  mapping holds the entry of the XML, which carries no source file.
\<close>

theorem xml_entry_survives_failed_source_definition:
  "search_param_define ''PARAM_DEFINE_FLOAT(P, 2);'' = Some (''FLOAT'', ''P'', ''2'') \<and>
   map_of (parameters (snd (parse_all
      (Some (Inr (Element ''parameters'' [] None
         [Element ''group'' [(''name'', ''G'')] None
            [Element ''parameter'' [(''name'', ''P''), (''type'', ''FLOAT''), (''default'', ''1'')]
               None []]])))
      [(''src/a.c'',
        Inr (''/**'' @ CHR 0x0A # ''* @min abc'' @ CHR 0x0A # ''*/'' @ CHR 0x0A #
             ''PARAM_DEFINE_FLOAT(P, 2);''))]
      None (init ''/repo'' ''/out'')))) ''P'' =
   Some \<lparr>name = ''P'', type = ''FLOAT'', default = ''1'', short_desc = Some [],
      long_desc = Some [], min_val = None, max_val = None, unit = None, decimal = None,
      group = ''G'', values_p = [], volatile = False, category = ''Standard'',
      source_file = None, line_number = None\<rparr>"
proof
  show "search_param_define ''PARAM_DEFINE_FLOAT(P, 2);'' = Some (''FLOAT'', ''P'', ''2'')"
    by code_simp
  show "map_of (parameters (snd (parse_all
      (Some (Inr (Element ''parameters'' [] None
         [Element ''group'' [(''name'', ''G'')] None
            [Element ''parameter'' [(''name'', ''P''), (''type'', ''FLOAT''), (''default'', ''1'')]
               None []]])))
      [(''src/a.c'',
        Inr (''/**'' @ CHR 0x0A # ''* @min abc'' @ CHR 0x0A # ''*/'' @ CHR 0x0A #
             ''PARAM_DEFINE_FLOAT(P, 2);''))]
      None (init ''/repo'' ''/out'')))) ''P'' =
   Some \<lparr>name = ''P'', type = ''FLOAT'', default = ''1'', short_desc = Some [],
      long_desc = Some [], min_val = None, max_val = None, unit = None, decimal = None,
      group = ''G'', values_p = [], volatile = False, category = ''Standard'',
      source_file = None, line_number = None\<rparr>"
    by code_simp
qed

lemma over_process:
  assumes "repo_path s1 = repo_path s2" "map_of (parameters s1) = m ++ map_of (parameters s2)"
  shows "map_of (parameters (process_parameter_definition t nm d cc src n s1)) =
         m ++ map_of (parameters (process_parameter_definition t nm d cc src n s2))"
  using assms
  by (simp add: process_parameter_definition_def update_conv' split: sum.splits)

lemma over_scan_line:
  assumes "repo_path s1 = repo_path s2" "map_of (parameters s1) = m ++ map_of (parameters s2)"
  shows "fst (scan_line src n raw (ic, cc, s1)) = fst (scan_line src n raw (ic, cc, s2)) \<and>
         fst (snd (scan_line src n raw (ic, cc, s1))) = fst (snd (scan_line src n raw (ic, cc, s2))) \<and>
         map_of (parameters (snd (snd (scan_line src n raw (ic, cc, s1))))) =
           m ++ map_of (parameters (snd (snd (scan_line src n raw (ic, cc, s2)))))"
  using assms over_process [OF assms]
  by (simp add: scan_line_def Let_def split: option.splits prod.splits)

lemma over_scan_lines:
  assumes "repo_path s1 = repo_path s2" "map_of (parameters s1) = m ++ map_of (parameters s2)"
  shows "map_of (parameters (snd (snd (scan_lines src n raws (ic, cc, s1))))) =
           m ++ map_of (parameters (snd (snd (scan_lines src n raws (ic, cc, s2)))))"
  using assms
proof (induction raws arbitrary: n ic cc s1 s2)
  case Nil
  then show ?case by simp
next
  case (Cons raw raws)
  obtain ic' cc' t1 where r1: "scan_line src (n + 1) raw (ic, cc, s1) = (ic', cc', t1)"
    by (cases "scan_line src (n + 1) raw (ic, cc, s1)")
  obtain ic2 cc2 t2 where r2: "scan_line src (n + 1) raw (ic, cc, s2) = (ic2, cc2, t2)"
    by (cases "scan_line src (n + 1) raw (ic, cc, s2)")
  from over_scan_line [OF Cons.prems, of src "n + 1" raw ic cc] r1 r2
  have e: "ic2 = ic'" "cc2 = cc'" "map_of (parameters t1) = m ++ map_of (parameters t2)"
    by simp_all
  have "repo_path t1 = repo_path (snd (snd (ic, cc, s1)))"
    using repo_path_scan_line [of src "n + 1" raw "(ic, cc, s1)"] r1 by simp
  moreover have "repo_path t2 = repo_path (snd (snd (ic, cc, s2)))"
    using repo_path_scan_line [of src "n + 1" raw "(ic, cc, s2)"] r2 by simp
  ultimately have rp: "repo_path t1 = repo_path t2" using Cons.prems by simp
  from Cons.IH [OF rp e(3)] r1 r2 e show ?case by simp
qed

lemma over_parse_source_file:
  assumes "repo_path s1 = repo_path s2" "map_of (parameters s1) = m ++ map_of (parameters s2)"
  shows "map_of (parameters (parse_source_file f s1)) =
           m ++ map_of (parameters (parse_source_file f s2))"
  using assms over_scan_lines [OF assms]
  by (simp add: parse_source_file_def split: sum.splits)

lemma over_scan_files:
  assumes "repo_path s1 = repo_path s2" "map_of (parameters s1) = m ++ map_of (parameters s2)"
  shows "map_of (parameters (scan_files fs s1)) = m ++ map_of (parameters (scan_files fs s2))"
  using assms
proof (induction fs arbitrary: s1 s2)
  case Nil
  then show ?case by simp
next
  case (Cons f fs)
  have p: "path_str s1 (fst f) = path_str s2 (fst f)"
    using Cons.prems by (simp add: path_str_def)
  show ?case
  proof (cases "contains ''build'' (path_str s1 (fst f))")
    case True
    with p Cons show ?thesis by simp
  next
    case False
    have "repo_path (parse_source_file f s1) = repo_path (parse_source_file f s2)"
      using Cons.prems by simp
    from Cons.IH [OF this over_parse_source_file [OF Cons.prems]] False p
    show ?thesis by simp
  qed
qed

lemma over_scan_exts:
  assumes "repo_path s1 = repo_path s2" "map_of (parameters s1) = m ++ map_of (parameters s2)"
  shows "map_of (parameters (scan_exts exts tree s1)) =
           m ++ map_of (parameters (scan_exts exts tree s2))"
  using assms
proof (induction exts arbitrary: s1 s2)
  case Nil
  then show ?case by simp
next
  case (Cons ext exts)
  have "repo_path (scan_files (rglob tree ext) s1) = repo_path (scan_files (rglob tree ext) s2)"
    using Cons.prems by simp
  from Cons.IH [OF this over_scan_files [OF Cons.prems]] show ?case by simp
qed

lemma parameters_save [simp]: "parameters (snd (save_parameters wr self)) = parameters self"
  by (cases wr) (simp_all add: save_parameters_def Let_def)

lemma scan_exts_no_files: "parameters (scan_exts exts [] self) = parameters self"
  by (induction exts arbitrary: self) (simp_all add: rglob_def)

lemma parse_all_override:
  "map_of (parameters (snd (parse_all injected tree wr (init repo out)))) =
   map_of (parameters (snd (parse_all injected [] wr (init repo out)))) ++
   map_of (parameters (snd (parse_all None tree wr (init repo out))))"
proof -
  let ?p = "path_str (init repo out) ''src/lib/parameters/parameters_injected.xml''"
  let ?s1 = "log_msg INFO Starting_parameter_parsing (init repo out)"
  let ?s2 = "case injected of None \<Rightarrow> ?s1
     | Some doc \<Rightarrow> parse_xml_file ?p doc (log_msg INFO (Parsing_injected_parameters_from ?p) ?s1)"
  let ?a = "log_msg INFO Scanning_source_files ?s2"
  let ?b = "log_msg INFO Scanning_source_files ?s1"
  have rp: "repo_path ?a = repo_path ?b" by (cases injected) simp_all
  have m: "map_of (parameters ?a) = map_of (parameters ?s2) ++ map_of (parameters ?b)"
    by (simp add: init_def)
  have x: "parameters (snd (parse_all injected [] wr (init repo out))) = parameters ?s2"
    by (simp add: parse_all_def Let_def scan_exts_no_files del: scan_exts.simps)
  from over_scan_exts [OF rp m, of "[''.c'', ''.cpp'', ''.h'', ''.hpp'']" tree] x
  show ?thesis by (simp add: parse_all_def Let_def del: scan_exts.simps)
qed

lemma sd_log [simp]: "source_derived (log_msg l m self) = source_derived self"
  by (simp add: source_derived_def)

lemma sd_process:
  assumes a: "source_derived self"
  shows "source_derived (process_parameter_definition t nm d cc src n self)"
proof (cases "process_parameter_definition_try t nm d cc src n")
  case (Inl e)
  with a show ?thesis by (simp add: process_parameter_definition_def)
next
  case (Inr p)
  from try_name_source [OF Inr] have np: "name p = nm" "source_file p \<noteq> None" by simp_all
  have ps: "parameters (process_parameter_definition t nm d cc src n self) =
      AList.update nm p (parameters self)"
    using Inr by (simp add: process_parameter_definition_def)
  show ?thesis
    unfolding source_derived_def
  proof (intro allI impI)
    fix k q
    assume m: "map_of (parameters (process_parameter_definition t nm d cc src n self)) k = Some q"
    show "name q = k \<and> source_file q \<noteq> None"
    proof (cases "k = nm")
      case True
      with m have "q = p" by (simp add: ps update_conv')
      with np True show ?thesis by simp
    next
      case False
      with m have "map_of (parameters self) k = Some q"
        by (simp add: ps update_conv')
      with a show ?thesis unfolding source_derived_def by blast
    qed
  qed
qed

lemma sd_scan_line:
  "source_derived (snd (snd st)) \<Longrightarrow> source_derived (snd (snd (scan_line src n raw st)))"
  by (cases st) (simp add: scan_line_def Let_def sd_process split: option.splits prod.splits)

lemma sd_scan_lines:
  "source_derived (snd (snd st)) \<Longrightarrow> source_derived (snd (snd (scan_lines src n raws st)))"
  by (induction raws arbitrary: n st) (simp_all add: sd_scan_line)

lemma sd_parse_source_file:
  "source_derived self \<Longrightarrow> source_derived (parse_source_file f self)"
  by (cases "snd f") (simp_all add: parse_source_file_def sd_scan_lines)

lemma sd_scan_files: "source_derived self \<Longrightarrow> source_derived (scan_files fs self)"
  by (induction fs arbitrary: self) (simp_all add: sd_parse_source_file)

lemma sd_scan_exts: "source_derived self \<Longrightarrow> source_derived (scan_exts exts tree self)"
  by (induction exts arbitrary: self) (simp_all add: sd_scan_files)

lemma sd_source_only: "source_derived (snd (parse_all None tree wr (init repo out)))"
proof -
  have "source_derived (init repo out)" by (simp add: source_derived_def init_def)
  then have "source_derived (scan_exts [''.c'', ''.cpp'', ''.h'', ''.hpp''] tree
      (log_msg INFO Scanning_source_files (log_msg INFO Starting_parameter_parsing (init repo out))))"
    by (intro sd_scan_exts) simp
  then show ?thesis
    by (cases wr) (simp_all add: parse_all_def Let_def save_parameters_def del: scan_exts.simps)
qed

lemma scan_line_stores:
  assumes "\<not> contains ''/**'' (strip raw)"
    and "search_param_define (strip raw) = Some (t, nm, d)"
    and "process_parameter_definition_try t nm d cc src n = Inr p"
  shows "parameters (snd (snd (scan_line src n raw (False, cc, self)))) =
         AList.update nm p (parameters self)"
  using assms
  by (simp add: scan_line_def Let_def comment_start_None comment_start_Some
      process_parameter_definition_def)

text \<open>
  Claim C5, amended. The mapping has one entry per name after the whole pipeline, and the
  XML ingestion and the scan of a file keep that property from any state. The XML is
  ingested before the scan, and the final mapping is the mapping the XML document alone
  gives, overridden entry by entry by the mapping the scan of the same files gives with no
  XML document at all: under a name for which the scan stores an entry the final mapping
  holds exactly that entry, which is under its own name and carries a source file, with no
  field of the XML entry kept, and under any other name it holds the XML entry, if any.
  Under every name for which the extractor logged that it stored an entry, the final
  mapping holds a source-derived entry. Each insertion replaces the whole entry under its
  name and leaves the other names alone: the extractor puts the parameter it has built
  from the macro line and its comment, the ingestor the one it has built from the element.
\<close>

theorem source_entry_replaces_xml_entry:
  "distinct (map fst (parameters (snd (parse_all injected tree wr (init repo out))))) \<and>
   (distinct (map fst (parameters self)) \<longrightarrow>
      distinct (map fst (parameters (parse_xml_file xml_path doc self))) \<and>
      distinct (map fst (parameters (parse_source_file f self)))) \<and>
   map_of (parameters (snd (parse_all injected tree wr (init repo out)))) =
     map_of (parameters (snd (parse_all injected [] wr (init repo out)))) ++
     map_of (parameters (snd (parse_all None tree wr (init repo out)))) \<and>
   (\<forall>nm p. map_of (parameters (snd (parse_all None tree wr (init repo out)))) nm = Some p \<longrightarrow>
      name p = nm \<and> source_file p \<noteq> None \<and>
      map_of (parameters (snd (parse_all injected tree wr (init repo out)))) nm = Some p) \<and>
   (\<forall>nm. map_of (parameters (snd (parse_all None tree wr (init repo out)))) nm = None \<longrightarrow>
      map_of (parameters (snd (parse_all injected tree wr (init repo out)))) nm =
      map_of (parameters (snd (parse_all injected [] wr (init repo out)))) nm) \<and>
   (\<forall>nm. stored_from_source (snd (parse_all injected tree wr (init repo out))) nm \<longrightarrow>
      (\<exists>p. map_of (parameters (snd (parse_all injected tree wr (init repo out)))) nm = Some p \<and>
           name p = nm \<and> source_file p \<noteq> None)) \<and>
   (\<not> contains ''/**'' (strip raw) \<and>
    search_param_define (strip raw) = Some (t, nm', d) \<and>
    process_parameter_definition_try t nm' d cc src n = Inr q \<longrightarrow>
      parameters (snd (snd (scan_line src n raw (False, cc, self)))) =
        AList.update nm' q (parameters self)) \<and>
   (parse_parameter_try param g = Inr (Some md) \<longrightarrow>
      parameters (ingest_parameters g [param] self) =
        AList.update (name md) md (parameters self)) \<and>
   map_of (AList.update k p' ps) k = Some p' \<and>
   (\<forall>k'. k' \<noteq> k \<longrightarrow> map_of (AList.update k p' ps) k' = map_of ps k')"
proof (intro conjI)
  from kept_parse_all [of injected tree wr repo out]
  show "distinct (map fst (parameters (snd (parse_all injected tree wr (init repo out)))))"
    and "\<forall>nm. stored_from_source (snd (parse_all injected tree wr (init repo out))) nm \<longrightarrow>
      (\<exists>p. map_of (parameters (snd (parse_all injected tree wr (init repo out)))) nm = Some p \<and>
           name p = nm \<and> source_file p \<noteq> None)"
    unfolding source_entries_kept_def by blast+
  show "distinct (map fst (parameters self)) \<longrightarrow>
      distinct (map fst (parameters (parse_xml_file xml_path doc self))) \<and>
      distinct (map fst (parameters (parse_source_file f self)))"
    using distinct_parse_xml_file distinct_parse_source_file by blast
  show o: "map_of (parameters (snd (parse_all injected tree wr (init repo out)))) =
     map_of (parameters (snd (parse_all injected [] wr (init repo out)))) ++
     map_of (parameters (snd (parse_all None tree wr (init repo out))))"
    by (rule parse_all_override)
  show "\<forall>nm p. map_of (parameters (snd (parse_all None tree wr (init repo out)))) nm = Some p \<longrightarrow>
      name p = nm \<and> source_file p \<noteq> None \<and>
      map_of (parameters (snd (parse_all injected tree wr (init repo out)))) nm = Some p"
  proof (intro allI impI)
    fix nm p
    assume m: "map_of (parameters (snd (parse_all None tree wr (init repo out)))) nm = Some p"
    with sd_source_only [of tree wr repo out]
    have "name p = nm \<and> source_file p \<noteq> None" unfolding source_derived_def by blast
    moreover from m
    have "map_of (parameters (snd (parse_all injected tree wr (init repo out)))) nm = Some p"
      by (simp only: o map_add_Some_iff) simp
    ultimately show "name p = nm \<and> source_file p \<noteq> None \<and>
      map_of (parameters (snd (parse_all injected tree wr (init repo out)))) nm = Some p"
      by blast
  qed
  show "\<forall>nm. map_of (parameters (snd (parse_all None tree wr (init repo out)))) nm = None \<longrightarrow>
      map_of (parameters (snd (parse_all injected tree wr (init repo out)))) nm =
      map_of (parameters (snd (parse_all injected [] wr (init repo out)))) nm"
    by (simp only: o map_add_def) simp
  show "\<not> contains ''/**'' (strip raw) \<and>
    search_param_define (strip raw) = Some (t, nm', d) \<and>
    process_parameter_definition_try t nm' d cc src n = Inr q \<longrightarrow>
      parameters (snd (snd (scan_line src n raw (False, cc, self)))) =
        AList.update nm' q (parameters self)"
    using scan_line_stores by blast
  show "parse_parameter_try param g = Inr (Some md) \<longrightarrow>
      parameters (ingest_parameters g [param] self) =
        AList.update (name md) md (parameters self)"
    by (simp add: parse_parameter_def)
  show "map_of (AList.update k p' ps) k = Some p'"
    by (simp add: update_conv')
  show "\<forall>k'. k' \<noteq> k \<longrightarrow> map_of (AList.update k p' ps) k' = map_of ps k'"
    by (simp add: update_conv')
qed

theorem source_entry_replaces_xml_entry_witness:
  "distinct (map fst (parameters (init ''/repo'' ''/out''))) \<and>
   distinct (map fst (parameters (parse_source_file (''src/a.c'', Inr ''PARAM_DEFINE_FLOAT(P, 2);'')
      (init ''/repo'' ''/out'')))) \<and>
   map_of (parameters (snd (parse_all None
      [(''src/a.c'', Inr ''PARAM_DEFINE_FLOAT(P, 2);'')] None (init ''/repo'' ''/out'')))) ''P'' =
     Some \<lparr>name = ''P'', type = ''FLOAT'', default = ''2'', short_desc = Some [],
       long_desc = Some [], min_val = None, max_val = None, unit = None, decimal = None,
       group = ''Uncategorized'', values_p = [], volatile = False, category = ''Standard'',
       source_file = Some ''src/a.c'', line_number = Some 1\<rparr> \<and>
   map_of (parameters (snd (parse_all
      (Some (Inr (Element ''parameters'' [] None
         [Element ''group'' [(''name'', ''G'')] None
            [Element ''parameter'' [(''name'', ''P''), (''type'', ''FLOAT''), (''default'', ''1'')]
               None [],
             Element ''parameter'' [(''name'', ''Q''), (''type'', ''INT32''), (''default'', ''7'')]
               None []]])))
      [(''src/a.c'', Inr ''PARAM_DEFINE_FLOAT(P, 2);'')] None (init ''/repo'' ''/out'')))) ''P'' =
     Some \<lparr>name = ''P'', type = ''FLOAT'', default = ''2'', short_desc = Some [],
       long_desc = Some [], min_val = None, max_val = None, unit = None, decimal = None,
       group = ''Uncategorized'', values_p = [], volatile = False, category = ''Standard'',
       source_file = Some ''src/a.c'', line_number = Some 1\<rparr> \<and>
   map_of (parameters (snd (parse_all None
      [(''src/a.c'', Inr ''PARAM_DEFINE_FLOAT(P, 2);'')] None (init ''/repo'' ''/out'')))) ''Q'' =
     None \<and>
   map_of (parameters (snd (parse_all
      (Some (Inr (Element ''parameters'' [] None
         [Element ''group'' [(''name'', ''G'')] None
            [Element ''parameter'' [(''name'', ''P''), (''type'', ''FLOAT''), (''default'', ''1'')]
               None [],
             Element ''parameter'' [(''name'', ''Q''), (''type'', ''INT32''), (''default'', ''7'')]
               None []]])))
      [(''src/a.c'', Inr ''PARAM_DEFINE_FLOAT(P, 2);'')] None (init ''/repo'' ''/out'')))) ''Q'' =
   map_of (parameters (snd (parse_all
      (Some (Inr (Element ''parameters'' [] None
         [Element ''group'' [(''name'', ''G'')] None
            [Element ''parameter'' [(''name'', ''P''), (''type'', ''FLOAT''), (''default'', ''1'')]
               None [],
             Element ''parameter'' [(''name'', ''Q''), (''type'', ''INT32''), (''default'', ''7'')]
               None []]])))
      [] None (init ''/repo'' ''/out'')))) ''Q'' \<and>
   map_of (parameters (snd (parse_all
      (Some (Inr (Element ''parameters'' [] None
         [Element ''group'' [(''name'', ''G'')] None
            [Element ''parameter'' [(''name'', ''P''), (''type'', ''FLOAT''), (''default'', ''1'')]
               None [],
             Element ''parameter'' [(''name'', ''Q''), (''type'', ''INT32''), (''default'', ''7'')]
               None []]])))
      [] None (init ''/repo'' ''/out'')))) ''Q'' =
     Some \<lparr>name = ''Q'', type = ''INT32'', default = ''7'', short_desc = Some [],
       long_desc = Some [], min_val = None, max_val = None, unit = None, decimal = None,
       group = ''G'', values_p = [], volatile = False, category = ''Standard'',
       source_file = None, line_number = None\<rparr> \<and>
   stored_from_source (snd (parse_all
      (Some (Inr (Element ''parameters'' [] None
         [Element ''group'' [(''name'', ''G'')] None
            [Element ''parameter'' [(''name'', ''P''), (''type'', ''FLOAT''), (''default'', ''1'')]
               None [],
             Element ''parameter'' [(''name'', ''Q''), (''type'', ''INT32''), (''default'', ''7'')]
               None []]])))
      [(''src/a.c'', Inr ''PARAM_DEFINE_FLOAT(P, 2);'')] None (init ''/repo'' ''/out''))) ''P'' \<and>
   \<not> contains ''/**'' (strip ''PARAM_DEFINE_FLOAT(P, 2);'') \<and>
   search_param_define (strip ''PARAM_DEFINE_FLOAT(P, 2);'') = Some (''FLOAT'', ''P'', ''2'') \<and>
   process_parameter_definition_try ''FLOAT'' ''P'' ''2'' [] ''src/a.c'' 1 =
     Inr \<lparr>name = ''P'', type = ''FLOAT'', default = ''2'', short_desc = Some [],
       long_desc = Some [], min_val = None, max_val = None, unit = None, decimal = None,
       group = ''Uncategorized'', values_p = [], volatile = False, category = ''Standard'',
       source_file = Some ''src/a.c'', line_number = Some 1\<rparr> \<and>
   parameters (snd (snd (scan_line ''src/a.c'' 1 ''PARAM_DEFINE_FLOAT(P, 2);''
      (False, [], init ''/repo'' ''/out'')))) =
     AList.update ''P''
       \<lparr>name = ''P'', type = ''FLOAT'', default = ''2'', short_desc = Some [],
         long_desc = Some [], min_val = None, max_val = None, unit = None, decimal = None,
         group = ''Uncategorized'', values_p = [], volatile = False, category = ''Standard'',
         source_file = Some ''src/a.c'', line_number = Some 1\<rparr>
       (parameters (init ''/repo'' ''/out'')) \<and>
   parse_parameter_try
     (Element ''parameter'' [(''name'', ''Q''), (''type'', ''INT32''), (''default'', ''7'')] None [])
     ''G'' =
     Inr (Some \<lparr>name = ''Q'', type = ''INT32'', default = ''7'', short_desc = Some [],
       long_desc = Some [], min_val = None, max_val = None, unit = None, decimal = None,
       group = ''G'', values_p = [], volatile = False, category = ''Standard'',
       source_file = None, line_number = None\<rparr>) \<and>
   parameters (ingest_parameters ''G''
     [Element ''parameter'' [(''name'', ''Q''), (''type'', ''INT32''), (''default'', ''7'')] None []]
     (init ''/repo'' ''/out'')) =
     AList.update ''Q''
       \<lparr>name = ''Q'', type = ''INT32'', default = ''7'', short_desc = Some [],
         long_desc = Some [], min_val = None, max_val = None, unit = None, decimal = None,
         group = ''G'', values_p = [], volatile = False, category = ''Standard'',
         source_file = None, line_number = None\<rparr>
       (parameters (init ''/repo'' ''/out'')) \<and>
   ''Q'' \<noteq> ''P'' \<and>
   map_of (AList.update ''P''
       \<lparr>name = ''P'', type = ''FLOAT'', default = ''2'', short_desc = Some [],
         long_desc = Some [], min_val = None, max_val = None, unit = None, decimal = None,
         group = ''Uncategorized'', values_p = [], volatile = False, category = ''Standard'',
         source_file = Some ''src/a.c'', line_number = Some 1\<rparr>
       [(''Q'',
         \<lparr>name = ''Q'', type = ''INT32'', default = ''7'', short_desc = Some [],
         long_desc = Some [], min_val = None, max_val = None, unit = None, decimal = None,
         group = ''G'', values_p = [], volatile = False, category = ''Standard'',
         source_file = None, line_number = None\<rparr>)]) ''Q'' =
   map_of
       [(''Q'',
         \<lparr>name = ''Q'', type = ''INT32'', default = ''7'', short_desc = Some [],
         long_desc = Some [], min_val = None, max_val = None, unit = None, decimal = None,
         group = ''G'', values_p = [], volatile = False, category = ''Standard'',
         source_file = None, line_number = None\<rparr>)] ''Q''"
proof -
  let ?xml = "Some (Inr (Element ''parameters'' [] None
         [Element ''group'' [(''name'', ''G'')] None
            [Element ''parameter'' [(''name'', ''P''), (''type'', ''FLOAT''), (''default'', ''1'')]
               None [],
             Element ''parameter'' [(''name'', ''Q''), (''type'', ''INT32''), (''default'', ''7'')]
               None []]]))"
  let ?f = "(''src/a.c'', Inr ''PARAM_DEFINE_FLOAT(P, 2);'') :: src_file"
  let ?pS = "\<lparr>name = ''P'', type = ''FLOAT'', default = ''2'', short_desc = Some [],
       long_desc = Some [], min_val = None, max_val = None, unit = None, decimal = None,
       group = ''Uncategorized'', values_p = [], volatile = False, category = ''Standard'',
       source_file = Some ''src/a.c'', line_number = Some 1\<rparr>"
  let ?pQ = "\<lparr>name = ''Q'', type = ''INT32'', default = ''7'', short_desc = Some [],
       long_desc = Some [], min_val = None, max_val = None, unit = None, decimal = None,
       group = ''G'', values_p = [], volatile = False, category = ''Standard'',
       source_file = None, line_number = None\<rparr>"
  let ?q = "Element ''parameter'' [(''name'', ''Q''), (''type'', ''INT32''), (''default'', ''7'')]
       None []"
  let ?i = "init ''/repo'' ''/out''"
  note t = source_entry_replaces_xml_entry
    [where injected = ?xml and tree = "[?f]" and wr = None and repo = "''/repo''"
       and out = "''/out''" and self = ?i and xml_path = "''/repo/x.xml''"
       and doc = "Inl ParseError" and f = ?f and raw = "''PARAM_DEFINE_FLOAT(P, 2);''"
       and t = "''FLOAT''" and nm' = "''P''" and d = "''2''" and cc = "[]"
       and src = "''src/a.c''" and n = 1 and q = ?pS and param = ?q and g = "''G''"
       and md = ?pQ and k = "''P''" and p' = ?pS and ps = "[(''Q'', ?pQ)]"]
  have h1: "distinct (map fst (parameters ?i))" by (simp add: init_def)
  have h2: "map_of (parameters (snd (parse_all None [?f] None ?i))) ''P'' = Some ?pS"
    by code_simp
  have h3: "map_of (parameters (snd (parse_all None [?f] None ?i))) ''Q'' = None"
    by code_simp
  have h4: "map_of (parameters (snd (parse_all ?xml [] None ?i))) ''Q'' = Some ?pQ"
    by code_simp
  have h5: "stored_from_source (snd (parse_all ?xml [?f] None ?i)) ''P''"
    by code_simp
  have h6: "\<not> contains ''/**'' (strip ''PARAM_DEFINE_FLOAT(P, 2);'')"
    by code_simp
  have h7: "search_param_define (strip ''PARAM_DEFINE_FLOAT(P, 2);'') = Some (''FLOAT'', ''P'', ''2'')"
    by code_simp
  have h8: "process_parameter_definition_try ''FLOAT'' ''P'' ''2'' [] ''src/a.c'' 1 = Inr ?pS"
    by code_simp
  have h9: "parse_parameter_try ?q ''G'' = Inr (Some ?pQ)"
    by code_simp
  have h10: "''Q'' \<noteq> ''P''" by simp
  note t2 = t [THEN conjunct2, THEN conjunct1]
  note t4 = t [THEN conjunct2, THEN conjunct2, THEN conjunct2, THEN conjunct1]
  note t5 = t [THEN conjunct2, THEN conjunct2, THEN conjunct2, THEN conjunct2, THEN conjunct1]
  note t7 = t [THEN conjunct2, THEN conjunct2, THEN conjunct2, THEN conjunct2, THEN conjunct2,
      THEN conjunct2, THEN conjunct1]
  note t8 = t [THEN conjunct2, THEN conjunct2, THEN conjunct2, THEN conjunct2, THEN conjunct2,
      THEN conjunct2, THEN conjunct2, THEN conjunct1]
  note t10 = t [THEN conjunct2, THEN conjunct2, THEN conjunct2, THEN conjunct2, THEN conjunct2,
      THEN conjunct2, THEN conjunct2, THEN conjunct2, THEN conjunct2]
  have c1: "distinct (map fst (parameters (parse_source_file ?f ?i)))"
    by (rule t2 [THEN mp, OF h1, THEN conjunct2])
  have c2: "map_of (parameters (snd (parse_all ?xml [?f] None ?i))) ''P'' = Some ?pS"
    by (rule t4 [THEN spec, THEN spec, THEN mp, OF h2, THEN conjunct2, THEN conjunct2])
  have c3: "map_of (parameters (snd (parse_all ?xml [?f] None ?i))) ''Q'' =
      map_of (parameters (snd (parse_all ?xml [] None ?i))) ''Q''"
    by (rule t5 [THEN spec, THEN mp, OF h3])
  have c4: "parameters (snd (snd (scan_line ''src/a.c'' 1 ''PARAM_DEFINE_FLOAT(P, 2);''
      (False, [], ?i)))) = AList.update ''P'' ?pS (parameters ?i)"
    by (rule t7 [THEN mp, OF conjI [OF h6 conjI [OF h7 h8]]])
  have c5: "parameters (ingest_parameters ''G'' [?q] ?i) =
      AList.update ''Q'' ?pQ (parameters ?i)"
    using t8 [THEN mp, OF h9] by (simp only: ParameterMetadata.simps)
  have c6: "map_of (AList.update ''P'' ?pS [(''Q'', ?pQ)]) ''Q'' = map_of [(''Q'', ?pQ)] ''Q''"
    by (rule t10 [THEN spec, THEN mp, OF h10])
  from h1 c1 h2 c2 h3 c3 h4 h5 h6 h7 h8 c4 h9 c5 h10 c6 show ?thesis by (intro conjI)
qed

section \<open>The document written\<close>

lemma those_map_Some: "those (map (\<lambda>x. Some (f x)) xs) = Some (map f xs)"
  by (induction xs) simp_all

lemma nullable_string [simp]: "json_nullable json_string (json_opt JString x) = Some x"
  by (cases x) (simp_all add: json_nullable_def json_opt_def json_string_def)

lemma nullable_float [simp]: "json_nullable json_float (json_opt JFloat x) = Some x"
  by (cases x) (simp_all add: json_nullable_def json_opt_def json_float_def)

lemma nullable_int [simp]: "json_nullable json_int (json_opt JInt x) = Some x"
  by (cases x) (simp_all add: json_nullable_def json_opt_def json_int_def)

lemma json_values_round_trip [simp]:
  "json_values (JObject (map (\<lambda>kv. (fst kv, json_opt JString (snd kv))) vs)) = Some vs"
proof -
  have "those (map (\<lambda>kv. map_option (Pair (fst kv)) (json_nullable json_string (snd kv)))
          (map (\<lambda>kv. (fst kv, json_opt JString (snd kv))) vs)) = Some vs"
    by (induction vs) simp_all
  then show ?thesis by (simp only: json_values_def json.case)
qed

lemma read_metadata_round_trip: "read_metadata (metadata_dict p) = Some p"
  by (cases p)
    (simp add: read_metadata_def metadata_dict_def json_field_def json_string_def json_bool_def)

lemma read_parameters_round_trip: "read_parameters (params_dict ps) = Some ps"
proof -
  have "those (map (\<lambda>kv. map_option (Pair (fst kv)) (read_metadata (snd kv)))
          (map (\<lambda>kv. (fst kv, metadata_dict (snd kv))) ps)) = Some ps"
    by (induction ps) (simp_all add: read_metadata_round_trip)
  then show ?thesis by (simp only: read_parameters_def params_dict_def json.case)
qed

lemma float_eq_self: "float_eq x x \<longleftrightarrow> x \<noteq> NaN"
  by (cases x) simp_all

lemma rel_option_float_self: "rel_option float_eq x x \<longleftrightarrow> x \<noteq> Some NaN"
  by (cases x) (simp_all add: float_eq_self)

lemma dict_eq_self:
  "dict_eq veq xs xs \<longleftrightarrow> (\<forall>k v. map_of xs k = Some v \<longrightarrow> veq v v)"
proof
  assume a: "dict_eq veq xs xs"
  show "\<forall>k v. map_of xs k = Some v \<longrightarrow> veq v v"
  proof (intro allI impI)
    fix k v assume m: "map_of xs k = Some v"
    then have "k \<in> set (map fst xs)" by (metis map_of_eq_None_iff option.distinct(1) set_map)
    with a m show "veq v v" by (auto simp: dict_eq_def)
  qed
next
  assume b: "\<forall>k v. map_of xs k = Some v \<longrightarrow> veq v v"
  show "dict_eq veq xs xs"
    unfolding dict_eq_def
  proof (intro conjI ballI)
    fix k assume "k \<in> set (map fst xs)"
    then obtain v where "map_of xs k = Some v"
      by (metis map_of_eq_None_iff not_None_eq set_map)
    with b show "rel_option veq (map_of xs k) (map_of xs k)" by simp
  qed simp
qed

lemma metadata_eq_self: "metadata_eq p p \<longleftrightarrow> \<not> nan_bound p"
  by (simp add: metadata_eq_def nan_bound_def rel_option_float_self dict_eq_self)

lemma mapping_eq_self:
  "dict_eq metadata_eq ps ps \<longleftrightarrow> (\<forall>k p. map_of ps k = Some p \<longrightarrow> \<not> nan_bound p)"
  by (simp add: dict_eq_self metadata_eq_self)

text \<open>
  A bound that is a NaN does not read back equal. The comment gives \<open>@min nan\<close>, which
  \<open>float\<close> accepts, so the entry is stored with a NaN as its lower bound and the document
  holds it. The mapping read back has a NaN there too, and Python does not count a NaN
  equal to a NaN: the mapping read back is not equal to the one in memory.
\<close>

theorem nan_bound_does_not_read_back_equal:
  "parameters (snd (parse_all None
      [(''src/a.c'',
        Inr (''/**'' @ CHR 0x0A # ''* @min nan'' @ CHR 0x0A # ''*/'' @ CHR 0x0A #
             ''PARAM_DEFINE_FLOAT(P, 1);''))]
      None (init ''/repo'' ''/out''))) =
   [(''P'',
     \<lparr>name = ''P'', type = ''FLOAT'', default = ''1'', short_desc = Some [],
      long_desc = Some [], min_val = Some NaN, max_val = None, unit = None, decimal = None,
      group = ''Uncategorized'', values_p = [], volatile = False, category = ''Standard'',
      source_file = Some ''src/a.c'', line_number = Some 4\<rparr>)] \<and>
   map_option read_parameters (fst (parse_all None
      [(''src/a.c'',
        Inr (''/**'' @ CHR 0x0A # ''* @min nan'' @ CHR 0x0A # ''*/'' @ CHR 0x0A #
             ''PARAM_DEFINE_FLOAT(P, 1);''))]
      None (init ''/repo'' ''/out''))) =
   Some (Some [(''P'',
     \<lparr>name = ''P'', type = ''FLOAT'', default = ''1'', short_desc = Some [],
      long_desc = Some [], min_val = Some NaN, max_val = None, unit = None, decimal = None,
      group = ''Uncategorized'', values_p = [], volatile = False, category = ''Standard'',
      source_file = Some ''src/a.c'', line_number = Some 4\<rparr>)]) \<and>
   \<not> float_eq NaN NaN \<and>
   \<not> dict_eq metadata_eq
      [(''P'',
        \<lparr>name = ''P'', type = ''FLOAT'', default = ''1'', short_desc = Some [],
         long_desc = Some [], min_val = Some NaN, max_val = None, unit = None, decimal = None,
         group = ''Uncategorized'', values_p = [], volatile = False, category = ''Standard'',
         source_file = Some ''src/a.c'', line_number = Some 4\<rparr>)]
      (parameters (snd (parse_all None
      [(''src/a.c'',
        Inr (''/**'' @ CHR 0x0A # ''* @min nan'' @ CHR 0x0A # ''*/'' @ CHR 0x0A #
             ''PARAM_DEFINE_FLOAT(P, 1);''))]
      None (init ''/repo'' ''/out''))))"
  by (intro conjI; code_simp)

text \<open>
  Claim C9, amended. When the writing succeeds, the document holds \<open>params_dict\<close>: one
  object per name with the fifteen fields of \<open>ParameterMetadata\<close>, an optional field that
  is \<open>None\<close> as \<open>null\<close>. Reading that document back gives, field by field, the values of
  the mapping of the parser as it was when \<open>save_parameters\<close> was called, and the mapping
  read back is equal to that mapping, as Python compares the fields, exactly when no bound
  of an entry is a NaN. The text \<open>json.dump\<close> writes and \<open>json.load\<close> parses is not
  modelled: the document is the value given to the one and returned by the other.
\<close>

theorem json_round_trip:
  "fst (save_parameters None self) = Some (params_dict (parameters self)) \<and>
   read_parameters (params_dict (parameters self)) = Some (parameters self) \<and>
   (dict_eq metadata_eq (the (read_parameters (params_dict (parameters self)))) (parameters self)
      \<longleftrightarrow> (\<forall>k p. map_of (parameters self) k = Some p \<longrightarrow> \<not> nan_bound p)) \<and>
   json_get (metadata_dict (p\<lparr>min_val := None\<rparr>)) ''min_val'' = Some JNull \<and>
   json_get (metadata_dict (p\<lparr>max_val := None\<rparr>)) ''max_val'' = Some JNull \<and>
   json_get (metadata_dict (p\<lparr>unit := None\<rparr>)) ''unit'' = Some JNull \<and>
   json_get (metadata_dict (p\<lparr>decimal := None\<rparr>)) ''decimal'' = Some JNull \<and>
   json_get (metadata_dict (p\<lparr>source_file := None\<rparr>)) ''source_file'' = Some JNull \<and>
   json_get (metadata_dict (p\<lparr>line_number := None\<rparr>)) ''line_number'' = Some JNull"
proof (intro conjI)
  show "fst (save_parameters None self) = Some (params_dict (parameters self))"
    by (simp add: save_parameters_def Let_def)
  show "read_parameters (params_dict (parameters self)) = Some (parameters self)"
    by (rule read_parameters_round_trip)
  show "dict_eq metadata_eq (the (read_parameters (params_dict (parameters self)))) (parameters self)
      \<longleftrightarrow> (\<forall>k p. map_of (parameters self) k = Some p \<longrightarrow> \<not> nan_bound p)"
    by (simp only: read_parameters_round_trip option.sel mapping_eq_self)
qed (simp_all add: json_get_def metadata_dict_def json_opt_def)

theorem json_round_trip_witness:
  "\<not> nan_bound
      \<lparr>name = ''P'', type = ''FLOAT'', default = ''1'', short_desc = Some ''Short desc'',
       long_desc = Some [], min_val = Some (Finite 0), max_val = Some (Infinity False),
       unit = None, decimal = None, group = ''Test'', values_p = [], volatile = False,
       category = ''Standard'', source_file = Some ''src/a.c'', line_number = Some 4\<rparr> \<and>
   dict_eq metadata_eq
     (the (read_parameters (params_dict (parameters (set_parameter ''P''
        \<lparr>name = ''P'', type = ''FLOAT'', default = ''1'', short_desc = Some ''Short desc'',
         long_desc = Some [], min_val = Some (Finite 0), max_val = Some (Infinity False),
         unit = None, decimal = None, group = ''Test'', values_p = [], volatile = False,
         category = ''Standard'', source_file = Some ''src/a.c'', line_number = Some 4\<rparr>
        (init ''/repo'' ''/out''))))))
     (parameters (set_parameter ''P''
        \<lparr>name = ''P'', type = ''FLOAT'', default = ''1'', short_desc = Some ''Short desc'',
         long_desc = Some [], min_val = Some (Finite 0), max_val = Some (Infinity False),
         unit = None, decimal = None, group = ''Test'', values_p = [], volatile = False,
         category = ''Standard'', source_file = Some ''src/a.c'', line_number = Some 4\<rparr>
        (init ''/repo'' ''/out'')))"
proof -
  let ?p = "\<lparr>name = ''P'', type = ''FLOAT'', default = ''1'', short_desc = Some ''Short desc'',
       long_desc = Some [], min_val = Some (Finite 0), max_val = Some (Infinity False),
       unit = None, decimal = None, group = ''Test'', values_p = [], volatile = False,
       category = ''Standard'', source_file = Some ''src/a.c'', line_number = Some 4\<rparr>"
  have h: "\<not> nan_bound ?p" by (simp add: nan_bound_def)
  have ps: "parameters (set_parameter ''P'' ?p (init ''/repo'' ''/out'')) = [(''P'', ?p)]"
    by (simp add: init_def)
  have "\<forall>k q. map_of (parameters (set_parameter ''P'' ?p (init ''/repo'' ''/out''))) k = Some q \<longrightarrow>
      \<not> nan_bound q"
    unfolding ps using h by (auto split: if_splits)
  with json_round_trip [of "set_parameter ''P'' ?p (init ''/repo'' ''/out'')"] h
  show ?thesis by blast
qed

section \<open>The primary macro form\<close>

text \<open>
  A match gives the text it consumed: the pieces, one per item of the pattern, each within
  what its item allows, and what precedes and follows them in the line.
\<close>

lemma rmatch_sound:
  "rmatch rs s = Some (ps, r) \<Longrightarrow> s = concat ps @ r \<and> list_all2 piece_ok rs ps"
proof (induction rs s arbitrary: ps r rule: rmatch.induct)
  case (1 s)
  then show ?case by simp
next
  case (2 l rs s)
  then show ?case by (auto split: if_splits simp: prefix_def)
next
  case (3 c rs)
  then show ?case by simp
next
  case (4 c rs x xs)
  then show ?case by (auto split: if_splits)
next
  case (5 c rs)
  then show ?case by auto
next
  case (6 c rs x xs)
  then show ?case
    by (auto split: if_splits option.splits list.splits prod.splits)
qed

lemma rsearch_sound:
  "rsearch rs s = Some ps \<Longrightarrow> \<exists>pre post. s = pre @ concat ps @ post \<and> list_all2 piece_ok rs ps"
proof (induction s)
  case Nil
  then obtain r where "rmatch rs [] = Some (ps, r)" by auto
  from rmatch_sound [OF this] show ?case by auto
next
  case (Cons x xs)
  show ?case
  proof (cases "rmatch rs (x # xs)")
    case None
    with Cons.prems have "rsearch rs xs = Some ps" by simp
    from Cons.IH [OF this] obtain pre post
      where "xs = pre @ concat ps @ post" "list_all2 piece_ok rs ps" by blast
    then have "x # xs = (x # pre) @ concat ps @ post \<and> list_all2 piece_ok rs ps" by simp
    then show ?thesis by blast
  next
    case (Some a)
    with Cons.prems obtain r where "rmatch rs (x # xs) = Some (ps, r)"
      by (cases a) simp
    from rmatch_sound [OF this]
    have "x # xs = [] @ concat ps @ r \<and> list_all2 piece_ok rs ps" by simp
    then show ?thesis by blast
  qed
qed

lemma piece_One: "piece_ok (One c) p \<Longrightarrow> \<exists>x. p = [x] \<and> c x"
  by (cases p) (auto split: list.splits)

lemma search_param_define_sound:
  assumes "search_param_define line = Some (t, nm, d)"
  shows "\<exists>pre w1 w2 w3 w4 w5 post.
           line = pre @ ''PARAM_DEFINE_'' @ t @ w1 @ ''('' @ nm @ w2 @ '','' @ w3 @ d @ w4 @
                  '')'' @ w5 @ '';'' @ post \<and>
           is_identifier t \<and> is_identifier nm \<and> d \<noteq> [] \<and> list_all cls_default d \<and>
           list_all is_space w1 \<and> list_all is_space w2 \<and> list_all is_space w3 \<and>
           list_all is_space w4 \<and> list_all is_space w5"
proof -
  from assms obtain ps where s: "rsearch re_param_define line = Some ps"
    by (cases "rsearch re_param_define line") (simp_all add: search_param_define_def)
  from rsearch_sound [OF s] obtain pre post
    where l: "line = pre @ concat ps @ post" and ok: "list_all2 piece_ok re_param_define ps"
    by blast
  from ok obtain l0 t1 t2 w1 l1 n1 n2 w2 l2 w3 d1 d2 w4 l3 w5 l4
    where ps: "ps = [l0, t1, t2, w1, l1, n1, n2, w2, l2, w3, d1, d2, w4, l3, w5, l4]"
      and p: "piece_ok (Lit ''PARAM_DEFINE_'') l0" "piece_ok (One cls_upper_us) t1"
        "piece_ok (Star cls_upper_digit_us) t2" "piece_ok (Star is_space) w1"
        "piece_ok (Lit ''('') l1" "piece_ok (One cls_upper_us) n1"
        "piece_ok (Star cls_upper_digit_us) n2" "piece_ok (Star is_space) w2"
        "piece_ok (Lit '','') l2" "piece_ok (Star is_space) w3"
        "piece_ok (One cls_default) d1" "piece_ok (Star cls_default) d2"
        "piece_ok (Star is_space) w4" "piece_ok (Lit '')'') l3"
        "piece_ok (Star is_space) w5" "piece_ok (Lit '';'') l4"
    unfolding re_param_define_def list_all2_Cons1 list_all2_Nil by blast
  from assms s ps have g: "t = t1 @ t2" "nm = n1 @ n2" "d = d1 @ d2"
    by (simp_all add: search_param_define_def)
  from p(2) obtain a where a: "t1 = [a]" "cls_upper_us a" by (blast dest: piece_One)
  from p(6) obtain b where b: "n1 = [b]" "cls_upper_us b" by (blast dest: piece_One)
  from p(11) obtain c where c: "d1 = [c]" "cls_default c" by (blast dest: piece_One)
  have "line = pre @ ''PARAM_DEFINE_'' @ t @ w1 @ ''('' @ nm @ w2 @ '','' @ w3 @ d @ w4 @
                  '')'' @ w5 @ '';'' @ post"
    using l ps p g by simp
  moreover have "is_identifier t" "is_identifier nm" "d \<noteq> []" "list_all cls_default d"
    using g a b c p by (simp_all add: is_identifier_def)
  moreover have "list_all is_space w1" "list_all is_space w2" "list_all is_space w3"
    "list_all is_space w4" "list_all is_space w5"
    using p by simp_all
  ultimately show ?thesis by blast
qed


text \<open>
  Where two splittings of one text meet: the first character outside a class is the same
  in both.
\<close>

lemma first_non:
  "a @ x # r = b @ y # s \<Longrightarrow> list_all Q a \<Longrightarrow> list_all Q b \<Longrightarrow> \<not> Q x \<Longrightarrow> \<not> Q y \<Longrightarrow>
   a = b \<and> x = y \<and> r = s"
proof (induction a arbitrary: b)
  case Nil
  then show ?case by (cases b) auto
next
  case (Cons z a)
  then show ?case by (cases b) auto
qed

lemma first_non_skip:
  assumes "a @ w @ x # r = b @ y # s" "list_all Q a" "list_all Q b" "\<not> Q x" "\<not> Q y"
    and w: "list_all (\<lambda>c. \<not> Q c \<and> c \<noteq> y) w"
  shows "a = b \<and> w = [] \<and> x = y \<and> r = s"
proof (cases w)
  case Nil
  with assms first_non [of a x r b y s Q] show ?thesis by simp
next
  case (Cons c w')
  with assms have "a @ c # (w' @ x # r) = b @ y # s" "\<not> Q c" "c \<noteq> y" by simp_all
  with assms first_non [of a c "w' @ x # r" b y s Q] show ?thesis by simp
qed

lemma first_non_pre:
  "pre @ m = b @ y # s \<Longrightarrow> list_all Q b \<Longrightarrow> \<not> Q y \<Longrightarrow>
   list_all Q pre \<or> (\<exists>pre'. pre = b @ y # pre')"
proof (induction b arbitrary: pre)
  case Nil
  then show ?case by (cases pre) auto
next
  case (Cons z b)
  note prems = Cons.prems and IH = Cons.IH
  show ?case
  proof (cases pre)
    case Nil
    then show ?thesis by simp
  next
    case c: (Cons z' pre0)
    with prems have z: "z' = z" and e: "pre0 @ m = b @ y # s" by simp_all
    from IH [OF e] prems have "list_all Q pre0 \<or> (\<exists>pre'. pre0 = b @ y # pre')" by simp
    with c z prems show ?thesis by auto
  qed
qed

lemma split_first_non:
  "\<not> list_all Q xs \<Longrightarrow> \<exists>b y s. xs = b @ y # s \<and> list_all Q b \<and> \<not> Q y"
proof (induction xs)
  case Nil
  then show ?case by simp
next
  case (Cons x xs)
  show ?case
  proof (cases "Q x")
    case False
    then have "x # xs = [] @ x # xs \<and> list_all Q [] \<and> \<not> Q x" by simp
    then show ?thesis by blast
  next
    case True
    with Cons.prems have "\<not> list_all Q xs" by simp
    from Cons.IH [OF this] obtain b y s
      where "xs = b @ y # s" "list_all Q b" "\<not> Q y" by blast
    with True have "x # xs = (x # b) @ y # s \<and> list_all Q (x # b) \<and> \<not> Q y" by simp
    then show ?thesis by blast
  qed
qed

text \<open>The classes of the pattern are apart from each other and from its punctuation.\<close>

lemma ident_char_not_space: "cls_upper_digit_us c \<Longrightarrow> \<not> is_space c"
  by (auto simp: is_space_def cls_upper_digit_us_def is_upper_def is_digit_def)

lemma ident_char_not_punct:
  "cls_upper_digit_us c \<Longrightarrow>
   c \<noteq> CHR ''('' \<and> c \<noteq> CHR '','' \<and> c \<noteq> CHR '')'' \<and> c \<noteq> CHR '';'' \<and> c \<noteq> CHR '' ''"
  by (auto simp: cls_upper_digit_us_def is_upper_def is_digit_def)

lemma space_not_punct:
  "is_space c \<Longrightarrow> c \<noteq> CHR ''('' \<and> c \<noteq> CHR '','' \<and> c \<noteq> CHR '')'' \<and> c \<noteq> CHR '';''"
  by (auto simp: is_space_def)

lemma macro_prefix_ident: "list_all cls_upper_digit_us ''PARAM_DEFINE_''"
  by (simp add: cls_upper_digit_us_def is_upper_def is_digit_def)

lemma identifier_chars: "is_identifier t \<Longrightarrow> t \<noteq> [] \<and> list_all cls_upper_digit_us t"
  by (cases t) (auto simp: is_identifier_def cls_upper_us_def cls_upper_digit_us_def)

lemma default_char: "cls_default c \<longleftrightarrow> c \<noteq> CHR '' '' \<and> c \<noteq> CHR '','' \<and> c \<noteq> CHR '')''"
  by (simp add: cls_default_def)

lemma spaces_skip:
  "list_all is_space w \<Longrightarrow> y \<in> {CHR ''('', CHR '','', CHR '')'', CHR '';''} \<Longrightarrow>
   list_all (\<lambda>c. \<not> cls_upper_digit_us c \<and> c \<noteq> y) w"
  using ident_char_not_space space_not_punct by (auto simp: list_all_iff)


text \<open>
  The invocation \<open>P t(nm, d);\<close> against a match of the pattern somewhere in it, when
  \<open>d\<close> has a character the default may not have: the match can begin nowhere but at the
  start, its name is \<open>nm\<close>, and its default would have to be \<open>d\<close>.
\<close>

lemma macro_core:
  fixes P :: string
  assumes eq: "(P @ t) @ CHR ''('' # nm @ CHR '','' # CHR '' '' # d @ [CHR '')'', CHR '';''] =
               pre @ (P @ t') @ w1 @ CHR ''('' # nm' @ w2 @ CHR '','' # w3 @ d' @ w4 @
               CHR '')'' # w5 @ CHR '';'' # post"
    and P: "list_all cls_upper_digit_us P" "P \<noteq> []" "hd P \<noteq> CHR '' ''"
    and tI: "list_all cls_upper_digit_us t"
    and tI': "list_all cls_upper_digit_us t'" "t' \<noteq> []"
    and nI: "list_all cls_upper_digit_us nm"
    and nI': "list_all cls_upper_digit_us nm'"
    and dI': "list_all cls_default d'"
    and w: "list_all is_space w1" "list_all is_space w2" "list_all is_space w3"
      "list_all is_space w4" "list_all is_space w5"
    and bad: "\<not> list_all cls_default d"
    and hdd: "\<not> is_space (hd d)" and lstd: "\<not> is_space (last d)"
    and semi: "CHR '';'' \<notin> set d"
    and nested: "\<not> contains P d"
  shows False
proof -
  define S where "S = CHR '' '' # d @ [CHR '')'', CHR '';'']"
  define R2 where "R2 = nm @ CHR '','' # S"
  define R3 where "R3 = w3 @ d' @ w4 @ CHR '')'' # w5 @ CHR '';'' # post"
  define R1 where "R1 = nm' @ w2 @ CHR '','' # R3"
  define M where "M = (P @ t') @ w1 @ CHR ''('' # R1"
  have eq1: "pre @ M = (P @ t) @ CHR ''('' # R2"
    using eq by (simp add: S_def R2_def R3_def R1_def M_def)
  have np: "\<not> cls_upper_digit_us (CHR ''('')" "\<not> cls_upper_digit_us (CHR '','')"
    using ident_char_not_punct by blast+
  have Pt: "list_all cls_upper_digit_us (P @ t)" "list_all cls_upper_digit_us (P @ t')"
    using P tI tI' by simp_all
  have sk1: "list_all (\<lambda>c. \<not> cls_upper_digit_us c \<and> c \<noteq> CHR ''('') w1"
    using spaces_skip [OF w(1)] by simp
  have sk1c: "list_all (\<lambda>c. \<not> cls_upper_digit_us c \<and> c \<noteq> CHR '','') w1"
    using spaces_skip [OF w(1)] by simp
  have sk2: "list_all (\<lambda>c. \<not> cls_upper_digit_us c \<and> c \<noteq> CHR '','') w2"
    using spaces_skip [OF w(2)] by simp
  have r12: "R1 = R2"
  proof -
    from first_non_pre [OF eq1 Pt(1) np(1)]
    consider (A) "list_all cls_upper_digit_us pre"
      | (B) pre' where "pre = (P @ t) @ CHR ''('' # pre'" by blast
    then show ?thesis
    proof cases
      case A
      have e: "(pre @ P @ t') @ w1 @ CHR ''('' # R1 = (P @ t) @ CHR ''('' # R2"
        using eq1 by (simp add: M_def)
      have "list_all cls_upper_digit_us (pre @ P @ t')" using A Pt by simp
      from first_non_skip [OF e this Pt(1) np(1) np(1) sk1] show ?thesis by simp
    next
      case B
      with eq1 have e2: "pre' @ M = nm @ CHR '','' # S" by (simp add: R2_def)
      from first_non_pre [OF e2 nI np(2)]
      consider (B1) "list_all cls_upper_digit_us pre'"
        | (B2) p2 where "pre' = nm @ CHR '','' # p2" by blast
      then show ?thesis
      proof cases
        case B1
        have e: "(pre' @ P @ t') @ w1 @ CHR ''('' # R1 = nm @ CHR '','' # S"
          using e2 by (simp add: M_def)
        have "list_all cls_upper_digit_us (pre' @ P @ t')" using B1 Pt by simp
        from first_non_skip [OF e this nI np(1) np(2) sk1c] show ?thesis by simp
      next
        case B2
        define Z where "Z = t' @ w1 @ CHR ''('' # R1"
        have lz: "length Z \<ge> 3" using tI'(2) by (cases t') (simp_all add: Z_def R1_def)
        from B2 e2 have "(p2 @ P) @ Z = (CHR '' '' # d) @ [CHR '')'', CHR '';'']"
          by (simp add: M_def Z_def S_def)
        then obtain us where
          "(p2 @ P = (CHR '' '' # d) @ us \<and> us @ Z = [CHR '')'', CHR '';'']) \<or>
           ((p2 @ P) @ us = CHR '' '' # d \<and> Z = us @ [CHR '')'', CHR '';''])"
          unfolding append_eq_append_conv2 by blast
        then have e3: "p2 @ P @ us = CHR '' '' # d"
        proof
          assume "p2 @ P = (CHR '' '' # d) @ us \<and> us @ Z = [CHR '')'', CHR '';'']"
          then have "length (us @ Z) = 2" by simp
          with lz show ?thesis by simp
        next
          assume "(p2 @ P) @ us = CHR '' '' # d \<and> Z = us @ [CHR '')'', CHR '';'']"
          then show ?thesis by simp
        qed
        have "contains P d"
        proof (cases p2)
          case Nil
          with e3 P(2,3) show ?thesis by (cases P) simp_all
        next
          case (Cons c p3)
          with e3 have "d = p3 @ P @ us" by simp
          then show ?thesis unfolding contains_iff by blast
        qed
        with nested show ?thesis by simp
      qed
    qed
  qed
  have r3: "R3 = S"
  proof -
    from r12 have e: "nm' @ w2 @ CHR '','' # R3 = nm @ CHR '','' # S"
      by (simp add: R1_def R2_def)
    from first_non_skip [OF e nI' nI np(2) np(2) sk2] show ?thesis by simp
  qed
  define T where "T = w3 @ d' @ w4"
  have Tp: "list_all (\<lambda>c. c \<noteq> CHR '')'') T"
    using w(3,4) dI' space_not_punct by (auto simp: T_def list_all_iff default_char)
  have e3: "T @ CHR '')'' # (w5 @ CHR '';'' # post) = (CHR '' '' # d) @ CHR '')'' # [CHR '';'']"
    using r3 by (simp add: R3_def S_def T_def)
  have Td: "T = CHR '' '' # d"
  proof (cases "list_all (\<lambda>c. c \<noteq> CHR '')'') d")
    case True
    then have "list_all (\<lambda>c. c \<noteq> CHR '')'') (CHR '' '' # d)" by simp
    from first_non [OF e3 Tp this] show ?thesis by simp
  next
    case False
    from split_first_non [OF False] obtain d1 y d2
      where dd: "d = d1 @ y # d2" "list_all (\<lambda>c. c \<noteq> CHR '')'') d1" "\<not> y \<noteq> CHR '')''"
      by blast
    then have y: "y = CHR '')''" by simp
    have e4: "T @ CHR '')'' # (w5 @ CHR '';'' # post) =
              (CHR '' '' # d1) @ CHR '')'' # (d2 @ [CHR '')'', CHR '';''])"
      using e3 dd(1) y by simp
    have "list_all (\<lambda>c. c \<noteq> CHR '')'') (CHR '' '' # d1)" using dd(2) by simp
    from first_non [OF e4 Tp this]
    have e5: "w5 @ CHR '';'' # post = d2 @ CHR '')'' # [CHR '';'']" by simp
    have ns: "\<not> is_space (CHR '';'')" "\<not> is_space (CHR '')'')"
      using space_not_punct by blast+
    have False
    proof (cases "list_all is_space d2")
      case True
      from first_non [OF e5 w(5) True ns] show False by simp
    next
      case False
      from split_first_non [OF False] obtain b y' s
        where d2: "d2 = b @ y' # s" "list_all is_space b" "\<not> is_space y'" by blast
      with e5 have "w5 @ CHR '';'' # post = b @ y' # (s @ [CHR '')'', CHR '';''])" by simp
      from first_non [OF this w(5) d2(2) ns(1) d2(3)] have "y' = CHR '';''" by simp
      with d2(1) dd(1) semi show False by simp
    qed
    then show ?thesis ..
  qed
  have dne: "d \<noteq> []" using bad by auto
  have w4e: "w4 = []"
  proof (rule ccontr)
    assume n: "w4 \<noteq> []"
    have "last d = last (CHR '' '' # d)" using dne by simp
    also have "\<dots> = last (w3 @ d' @ w4)" using Td by (simp only: T_def)
    also have "\<dots> = last w4" using n by simp
    finally have "last d = last w4" .
    moreover have "is_space (last w4)" using w(4) n by (simp add: list_all_iff)
    ultimately show False using lstd by simp
  qed
  with Td have e6: "w3 @ d' = CHR '' '' # d" by (simp add: T_def)
  show False
  proof (cases w3)
    case Nil
    with e6 dI' show False by (simp add: default_char)
  next
    case (Cons c w3')
    with e6 have e7: "w3' @ d' = d" by simp
    show False
    proof (cases w3')
      case Nil
      with e7 dI' bad show False by simp
    next
      case c2: (Cons c2 w3'')
      with e7 have "hd d = c2" by auto
      moreover have "is_space c2" using w(3) Cons c2 by simp
      ultimately show False using hdd by simp
    qed
  qed
qed

lemma no_match_bad_default:
  assumes tI: "is_identifier t" and nI: "is_identifier nm"
    and bad: "\<not> list_all cls_default d"
    and hdd: "\<not> is_space (hd d)" and lstd: "\<not> is_space (last d)"
    and semi: "CHR '';'' \<notin> set d"
    and nested: "\<not> contains ''PARAM_DEFINE_'' d"
  shows "search_param_define (''PARAM_DEFINE_'' @ t @ ''('' @ nm @ '', '' @ d @ '');'') = None"
proof (rule ccontr)
  assume "search_param_define (''PARAM_DEFINE_'' @ t @ ''('' @ nm @ '', '' @ d @ '');'') \<noteq> None"
  then obtain t' nm' d' where
    m: "search_param_define (''PARAM_DEFINE_'' @ t @ ''('' @ nm @ '', '' @ d @ '');'') =
        Some (t', nm', d')" by auto
  from search_param_define_sound [OF m] obtain pre w1 w2 w3 w4 w5 post where
    eq: "''PARAM_DEFINE_'' @ t @ ''('' @ nm @ '', '' @ d @ '');'' =
         pre @ ''PARAM_DEFINE_'' @ t' @ w1 @ ''('' @ nm' @ w2 @ '','' @ w3 @ d' @ w4 @
         '')'' @ w5 @ '';'' @ post"
    and i: "is_identifier t'" "is_identifier nm'" "list_all cls_default d'"
    and w: "list_all is_space w1" "list_all is_space w2" "list_all is_space w3"
      "list_all is_space w4" "list_all is_space w5"
    by blast
  have e: "(''PARAM_DEFINE_'' @ t) @ CHR ''('' # nm @ CHR '','' # CHR '' '' # d @
             [CHR '')'', CHR '';''] =
           pre @ (''PARAM_DEFINE_'' @ t') @ w1 @ CHR ''('' # nm' @ w2 @ CHR '','' # w3 @ d' @ w4 @
             CHR '')'' # w5 @ CHR '';'' # post"
    using eq by simp
  have P: "''PARAM_DEFINE_'' \<noteq> []" "hd ''PARAM_DEFINE_'' \<noteq> CHR '' ''" by simp_all
  from macro_core [OF e macro_prefix_ident P
      conjunct2 [OF identifier_chars [OF tI]]
      conjunct2 [OF identifier_chars [OF i(1)]] conjunct1 [OF identifier_chars [OF i(1)]]
      conjunct2 [OF identifier_chars [OF nI]]
      conjunct2 [OF identifier_chars [OF i(2)]] i(3) w bad hdd lstd semi nested]
  show False .
qed

text \<open>
  The pattern is searched, not matched against the whole line, and it stops at the first
  closing parenthesis that a semicolon follows. A default that holds one, such as the
  statement expression \<open>({f();})\<close>, is cut there and the entry is stored with the
  default \<open>({f(\<close>.
\<close>

theorem default_with_statement_expression_is_matched:
  "\<not> list_all cls_default ''({f();})'' \<and>
   contains '')'' ''({f();})'' \<and>
   search_param_define (strip ''PARAM_DEFINE_INT32(NM, ({f();}));'') =
     Some (''INT32'', ''NM'', ''({f('') \<and>
   parameters (snd (snd (scan_line ''a.c'' 7 ''PARAM_DEFINE_INT32(NM, ({f();}));''
      (False, [], init ''/repo'' ''/out'')))) =
   [(''NM'',
     \<lparr>name = ''NM'', type = ''INT32'', default = ''({f('', short_desc = Some [],
      long_desc = Some [], min_val = None, max_val = None, unit = None,
      decimal = None, group = ''Uncategorized'', values_p = [], volatile = False,
      category = ''Standard'', source_file = Some ''a.c'', line_number = Some 7\<rparr>)]"
proof (intro conjI)
  show "\<not> list_all cls_default ''({f();})''" by code_simp
  show "contains '')'' ''({f();})''" by code_simp
  show "search_param_define (strip ''PARAM_DEFINE_INT32(NM, ({f();}));'') =
     Some (''INT32'', ''NM'', ''({f('')" by code_simp
  show "parameters (snd (snd (scan_line ''a.c'' 7 ''PARAM_DEFINE_INT32(NM, ({f();}));''
      (False, [], init ''/repo'' ''/out'')))) =
   [(''NM'',
     \<lparr>name = ''NM'', type = ''INT32'', default = ''({f('', short_desc = Some [],
      long_desc = Some [], min_val = None, max_val = None, unit = None,
      decimal = None, group = ''Uncategorized'', values_p = [], volatile = False,
      category = ''Standard'', source_file = Some ''a.c'', line_number = Some 7\<rparr>)]"
    by code_simp
qed

text \<open>
  Claim C10, amended. Outside a comment, a line changes the parser (an entry stored, or
  an error logged for it) only when the stripped line contains \<open>PARAM_DEFINE_\<close>, a type
  and a name that are identifiers, and a default with no space, comma or closing
  parenthesis, with optional white space around the punctuation and a semicolon after the
  closing parenthesis; the step is then the construction of that parameter. An invocation
  \<open>PARAM_DEFINE_<TYPE>(<NAME>, <default>);\<close> whose default holds a space, a comma or a
  closing parenthesis leaves the parser as it was, when the default neither begins nor
  ends with white space and holds no semicolon and no \<open>PARAM_DEFINE_\<close> of its own.
\<close>

theorem primary_macro_form:
  "(snd (snd (scan_line src_file line_no raw (False, cc, self))) \<noteq> self \<longrightarrow>
      (\<exists>t nm d pre w1 w2 w3 w4 w5 post.
         strip raw = pre @ ''PARAM_DEFINE_'' @ t @ w1 @ ''('' @ nm @ w2 @ '','' @ w3 @ d @ w4 @
                     '')'' @ w5 @ '';'' @ post \<and>
         is_identifier t \<and> is_identifier nm \<and> d \<noteq> [] \<and> list_all cls_default d \<and>
         list_all is_space w1 \<and> list_all is_space w2 \<and> list_all is_space w3 \<and>
         list_all is_space w4 \<and> list_all is_space w5 \<and>
         scan_line src_file line_no raw (False, cc, self) =
           (False, [], process_parameter_definition t nm d cc src_file line_no self))) \<and>
   (strip raw' = ''PARAM_DEFINE_'' @ t' @ ''('' @ nm' @ '', '' @ d' @ '');'' \<and>
    is_identifier t' \<and> is_identifier nm' \<and> \<not> list_all cls_default d' \<and>
    \<not> is_space (hd d') \<and> \<not> is_space (last d') \<and>
    CHR '';'' \<notin> set d' \<and> \<not> contains ''PARAM_DEFINE_'' d' \<longrightarrow>
      snd (snd (scan_line src_file line_no raw' (False, cc, self))) = self)"
proof (intro conjI impI)
  assume ch: "snd (snd (scan_line src_file line_no raw (False, cc, self))) \<noteq> self"
  have nc: "rsearch re_comment_start (strip raw) = None"
  proof (rule ccontr)
    assume "rsearch re_comment_start (strip raw) \<noteq> None"
    then have "scan_line src_file line_no raw (False, cc, self) = (True, [], self)"
      by (simp add: scan_line_def Let_def)
    with ch show False by simp
  qed
  obtain t nm d where m: "search_param_define (strip raw) = Some (t, nm, d)"
  proof (cases "search_param_define (strip raw)")
    case None
    with nc have "scan_line src_file line_no raw (False, cc, self) = (False, cc, self)"
      by (simp add: scan_line_def Let_def)
    with ch show ?thesis by simp
  next
    case (Some a)
    with that show ?thesis by (cases a) auto
  qed
  from nc m have st: "scan_line src_file line_no raw (False, cc, self) =
      (False, [], process_parameter_definition t nm d cc src_file line_no self)"
    by (simp add: scan_line_def Let_def)
  from search_param_define_sound [OF m] st
  show "\<exists>t nm d pre w1 w2 w3 w4 w5 post.
         strip raw = pre @ ''PARAM_DEFINE_'' @ t @ w1 @ ''('' @ nm @ w2 @ '','' @ w3 @ d @ w4 @
                     '')'' @ w5 @ '';'' @ post \<and>
         is_identifier t \<and> is_identifier nm \<and> d \<noteq> [] \<and> list_all cls_default d \<and>
         list_all is_space w1 \<and> list_all is_space w2 \<and> list_all is_space w3 \<and>
         list_all is_space w4 \<and> list_all is_space w5 \<and>
         scan_line src_file line_no raw (False, cc, self) =
           (False, [], process_parameter_definition t nm d cc src_file line_no self)"
    by blast
next
  assume a: "strip raw' = ''PARAM_DEFINE_'' @ t' @ ''('' @ nm' @ '', '' @ d' @ '');'' \<and>
    is_identifier t' \<and> is_identifier nm' \<and> \<not> list_all cls_default d' \<and>
    \<not> is_space (hd d') \<and> \<not> is_space (last d') \<and>
    CHR '';'' \<notin> set d' \<and> \<not> contains ''PARAM_DEFINE_'' d'"
  then have s: "strip raw' = ''PARAM_DEFINE_'' @ t' @ ''('' @ nm' @ '', '' @ d' @ '');''"
    and h: "is_identifier t'" "is_identifier nm'" "\<not> list_all cls_default d'"
      "\<not> is_space (hd d')" "\<not> is_space (last d')" "CHR '';'' \<notin> set d'"
      "\<not> contains ''PARAM_DEFINE_'' d'"
    by blast+
  from no_match_bad_default [OF h]
  have n: "search_param_define (strip raw') = None" by (simp only: s)
  show "snd (snd (scan_line src_file line_no raw' (False, cc, self))) = self"
    unfolding scan_line_def Let_def prod.case n by simp
qed

theorem primary_macro_form_witness:
  "snd (snd (scan_line ''a.c'' 7 ''  PARAM_DEFINE_FLOAT(MY_PARAM, 1.5);  ''
      (False, [], init ''/repo'' ''/out''))) \<noteq> init ''/repo'' ''/out'' \<and>
   (\<exists>t nm d pre w1 w2 w3 w4 w5 post.
      strip ''  PARAM_DEFINE_FLOAT(MY_PARAM, 1.5);  '' =
        pre @ ''PARAM_DEFINE_'' @ t @ w1 @ ''('' @ nm @ w2 @ '','' @ w3 @ d @ w4 @
        '')'' @ w5 @ '';'' @ post \<and>
      is_identifier t \<and> is_identifier nm \<and> d \<noteq> [] \<and> list_all cls_default d \<and>
      list_all is_space w1 \<and> list_all is_space w2 \<and> list_all is_space w3 \<and>
      list_all is_space w4 \<and> list_all is_space w5 \<and>
      scan_line ''a.c'' 7 ''  PARAM_DEFINE_FLOAT(MY_PARAM, 1.5);  ''
          (False, [], init ''/repo'' ''/out'') =
        (False, [], process_parameter_definition t nm d [] ''a.c'' 7 (init ''/repo'' ''/out''))) \<and>
   strip ''  PARAM_DEFINE_FLOAT(MY_P, (float)1.5);'' =
     ''PARAM_DEFINE_'' @ ''FLOAT'' @ ''('' @ ''MY_P'' @ '', '' @ ''(float)1.5'' @ '');'' \<and>
   is_identifier ''FLOAT'' \<and> is_identifier ''MY_P'' \<and>
   \<not> list_all cls_default ''(float)1.5'' \<and>
   \<not> is_space (hd ''(float)1.5'') \<and> \<not> is_space (last ''(float)1.5'') \<and>
   CHR '';'' \<notin> set ''(float)1.5'' \<and> \<not> contains ''PARAM_DEFINE_'' ''(float)1.5'' \<and>
   snd (snd (scan_line ''a.c'' 7 ''  PARAM_DEFINE_FLOAT(MY_P, (float)1.5);''
      (False, [], init ''/repo'' ''/out''))) = init ''/repo'' ''/out''"
proof -
  have h1: "snd (snd (scan_line ''a.c'' 7 ''  PARAM_DEFINE_FLOAT(MY_PARAM, 1.5);  ''
      (False, [], init ''/repo'' ''/out''))) \<noteq> init ''/repo'' ''/out''"
    by code_simp
  have h2: "strip ''  PARAM_DEFINE_FLOAT(MY_P, (float)1.5);'' =
     ''PARAM_DEFINE_'' @ ''FLOAT'' @ ''('' @ ''MY_P'' @ '', '' @ ''(float)1.5'' @ '');''"
    by code_simp
  have h3: "is_identifier ''FLOAT''" by code_simp
  have h4: "is_identifier ''MY_P''" by code_simp
  have h5: "\<not> list_all cls_default ''(float)1.5''" by code_simp
  have h6: "\<not> is_space (hd ''(float)1.5'')" by code_simp
  have h7: "\<not> is_space (last ''(float)1.5'')" by code_simp
  have h8: "CHR '';'' \<notin> set ''(float)1.5''" by code_simp
  have h9: "\<not> contains ''PARAM_DEFINE_'' ''(float)1.5''" by code_simp
  note t = primary_macro_form [of "''a.c''" 7 "''  PARAM_DEFINE_FLOAT(MY_PARAM, 1.5);  ''"
      "[]" "init ''/repo'' ''/out''" "''  PARAM_DEFINE_FLOAT(MY_P, (float)1.5);''"
      "''FLOAT''" "''MY_P''" "''(float)1.5''"]
  from t h1 have c1: "\<exists>t nm d pre w1 w2 w3 w4 w5 post.
      strip ''  PARAM_DEFINE_FLOAT(MY_PARAM, 1.5);  '' =
        pre @ ''PARAM_DEFINE_'' @ t @ w1 @ ''('' @ nm @ w2 @ '','' @ w3 @ d @ w4 @
        '')'' @ w5 @ '';'' @ post \<and>
      is_identifier t \<and> is_identifier nm \<and> d \<noteq> [] \<and> list_all cls_default d \<and>
      list_all is_space w1 \<and> list_all is_space w2 \<and> list_all is_space w3 \<and>
      list_all is_space w4 \<and> list_all is_space w5 \<and>
      scan_line ''a.c'' 7 ''  PARAM_DEFINE_FLOAT(MY_PARAM, 1.5);  ''
          (False, [], init ''/repo'' ''/out'') =
        (False, [], process_parameter_definition t nm d [] ''a.c'' 7 (init ''/repo'' ''/out''))"
    by (rule conjunct1 [THEN mp])
  from t h2 h3 h4 h5 h6 h7 h8 h9
  have c2: "snd (snd (scan_line ''a.c'' 7 ''  PARAM_DEFINE_FLOAT(MY_P, (float)1.5);''
      (False, [], init ''/repo'' ''/out''))) = init ''/repo'' ''/out''"
    by (intro conjunct2 [THEN mp, OF t] conjI)
  from h1 c1 h2 h3 h4 h5 h6 h7 h8 h9 c2 show ?thesis by (intro conjI)
qed

end
